theory Spec2Isabelle
  imports Complex_Main
begin

section \<open>The random source\<close>

text \<open>
  The notebooks draw every random number from \<^verbatim>\<open>numpy.random\<close>, whose generator is a
  piece of global state of the library. The generator is taken here as a parameter: a state
  of type \<open>'g\<close> and, for each distribution the code uses, the function that draws one
  number and returns the advanced state. A vectorised call \<^verbatim>\<open>np.random.uniform(low, high, n)\<close>
  fills its array with \<open>n\<close> successive single draws. The size \<open>n\<close> is a \<open>nat\<close>: numpy
  rejects a negative size before anything is drawn.
\<close>

record 'g np_random =
  uniform1 :: "real \<Rightarrow> real \<Rightarrow> 'g \<Rightarrow> real \<times> 'g"
  normal1 :: "real \<Rightarrow> real \<Rightarrow> 'g \<Rightarrow> real \<times> 'g"

fun draw_n :: "('g \<Rightarrow> real \<times> 'g) \<Rightarrow> nat \<Rightarrow> 'g \<Rightarrow> real list \<times> 'g" where
  "draw_n d 0 g = ([], g)"
| "draw_n d (Suc k) g =
     (let (x, g1) = d g; (xs, g2) = draw_n d k g1 in (x # xs, g2))"

definition uniform :: "'g np_random \<Rightarrow> real \<Rightarrow> real \<Rightarrow> nat \<Rightarrow> 'g \<Rightarrow> real list \<times> 'g" where
  "uniform R low high n g = draw_n (uniform1 R low high) n g"

definition normal :: "'g np_random \<Rightarrow> real \<Rightarrow> real \<Rightarrow> nat \<Rightarrow> 'g \<Rightarrow> real list \<times> 'g" where
  "normal R loc scale n g = draw_n (normal1 R loc scale) n g"


text \<open>
  A small deterministic generator to run the sampler on: the state is a counter, the
  \<open>k\<close>-th raw number is \<open>(k mod 10) / 10\<close>, and both distributions are affine images of it.
\<close>

definition unit_draw :: "nat \<Rightarrow> real" where
  "unit_draw k = real (k mod 10) / 10"

definition counter_random :: "nat np_random" where
  "counter_random =
     \<lparr> uniform1 = (\<lambda>low high k. (low + (high - low) * unit_draw k, Suc k)),
       normal1 = (\<lambda>loc scale k. (loc + scale * (8 * unit_draw k - 4), Suc k)) \<rparr>"

section \<open>Floating-point arrays\<close>

text \<open>
  The arrays of \<^verbatim>\<open>get_data\<close> are cast to \<^verbatim>\<open>np.float32\<close>, and numpy computes on them
  in that format: the result of every operation is rounded to it. The number format is a
  parameter: \<open>f32\<close> is the rounding, that is \<^verbatim>\<open>astype(np.float32)\<close>, and the four
  functions are numpy's on an array of the format. A float is the real number it
  stands for; an infinity or NaN that an overflow would give is outside this model.
\<close>

record np_float =
  f32 :: "real \<Rightarrow> real"
  np_exp :: "real \<Rightarrow> real"
  np_arctan :: "real \<Rightarrow> real"
  np_cos :: "real \<Rightarrow> real"
  np_sin :: "real \<Rightarrow> real"

text \<open>
  Product and sum of two entries, and \<^verbatim>\<open>x**0.5\<close>, which numpy computes as the square
  root: the exact result, rounded.
\<close>

definition fmul :: "np_float \<Rightarrow> real \<Rightarrow> real \<Rightarrow> real" where
  "fmul F a b = f32 F (a * b)"

definition fadd :: "np_float \<Rightarrow> real \<Rightarrow> real \<Rightarrow> real" where
  "fadd F a b = f32 F (a + b)"

definition fsqrt :: "np_float \<Rightarrow> real \<Rightarrow> real" where
  "fsqrt F a = f32 F (sqrt a)"


text \<open>Real arithmetic: nothing is rounded.\<close>

definition exact_arith :: np_float where
  "exact_arith =
     \<lparr> f32 = (\<lambda>x. x), np_exp = exp, np_arctan = arctan, np_cos = cos, np_sin = sin \<rparr>"

text \<open>
  IEEE binary32 with rounding to nearest, ties to even. A number of binary exponent \<open>e\<close>
  is rounded to a multiple of \<open>2 powr (e - 23)\<close>; below \<open>2 powr (- 126)\<close> the
  exponent stays at \<open>- 126\<close> (subnormal numbers, and underflow to zero). The four
  functions return the rounded exact value.
\<close>

definition rne :: "real \<Rightarrow> int" where
  "rne y =
     (let f = \<lfloor>y\<rfloor>; r = y - of_int f
      in if r < 1 / 2 then f else if 1 / 2 < r then f + 1 else if even f then f else f + 1)"

definition exponent32 :: "real \<Rightarrow> int" where
  "exponent32 x = (if \<bar>x\<bar> < 2 powr (- 126) then - 126 else \<lfloor>log 2 \<bar>x\<bar>\<rfloor>)"

definition quantum32 :: "real \<Rightarrow> real" where
  "quantum32 x = 2 powr (of_int (exponent32 x) - 23)"

definition round32 :: "real \<Rightarrow> real" where
  "round32 x = quantum32 x * of_int (rne (x / quantum32 x))"

definition binary32 :: np_float where
  "binary32 =
     \<lparr> f32 = round32, np_exp = (\<lambda>x. round32 (exp x)), np_arctan = (\<lambda>x. round32 (arctan x)),
       np_cos = (\<lambda>x. round32 (cos x)), np_sin = (\<lambda>x. round32 (sin x)) \<rparr>"

section \<open>The four-vector sampler\<close>

text \<open>
  \<^verbatim>\<open>np.mean\<close> of a boolean array is the fraction of its true entries; of an empty array
  it is NaN (\<open>None\<close> here), and every comparison with NaN is false.
\<close>

definition np_mean :: "bool list \<Rightarrow> real option" where
  "np_mean bs =
     (if bs = [] then None else Some (real (length (filter id bs)) / real (length bs)))"

fun nan_gt :: "real option \<Rightarrow> real \<Rightarrow> bool" where
  "nan_gt None c = False"
| "nan_gt (Some v) c = (v > c)"

text \<open>
  \<^verbatim>\<open>eta[mask] = values\<close>: the values replace, in order, the entries where the mask is
  true. The mask has the length of \<open>eta\<close> and the code draws exactly as many values as
  the mask has true entries, so the last equation is reached only at the end of the array.
\<close>

fun assign_masked :: "real list \<Rightarrow> bool list \<Rightarrow> real list \<Rightarrow> real list" where
  "assign_masked (x # xs) (True # bs) (v # vs) = v # assign_masked xs bs vs"
| "assign_masked (x # xs) (False # bs) vs = x # assign_masked xs bs vs"
| "assign_masked xs bs vs = xs"

text \<open>
  The rejection loop
  \<^verbatim>\<open>
    while np.mean(abs(eta) > 2.5) > 0.05:
        mask = abs(eta) > 2.5
        eta[mask] = np.random.normal(0, 2.5, np.sum(mask))
  \<close>
  has no bound on its iterations; \<open>None\<close> is the run that never leaves it. The draws are
  rounded when they are stored in the array.
\<close>

partial_function (option) eta_loop ::
  "np_float \<Rightarrow> 'g np_random \<Rightarrow> real list \<Rightarrow> 'g \<Rightarrow> (real list \<times> 'g) option" where
  "eta_loop F R eta g =
     (if nan_gt (np_mean (map (\<lambda>x. \<bar>x\<bar> > 2.5) eta)) 0.05 then
        (let mask = map (\<lambda>x. \<bar>x\<bar> > 2.5) eta in
         case normal R 0 2.5 (length (filter id mask)) g of
           (vs, g1) \<Rightarrow> eta_loop F R (assign_masked eta mask (map (f32 F) vs)) g1)
      else Some (eta, g))"

definition zeros_like :: "real list \<Rightarrow> real list" where
  "zeros_like p = replicate (length p) 0"

text \<open>
  \<^verbatim>\<open>np.stack(vec, axis=1)\<close> on columns of one length: row \<open>i\<close> holds the \<open>i\<close>-th entry
  of every column.
\<close>

definition stack_axis1 :: "real list list \<Rightarrow> real list list" where
  "stack_axis1 vec = transpose vec"

text \<open>
  \<^verbatim>\<open>get_data(n, min_p, max_p, min_m, max_m, cartesian=True)\<close> on arrays of the number
  format \<open>F\<close>. The array \<open>eta\<close> has the format already, so its \<^verbatim>\<open>astype\<close> changes
  nothing. The result is the batch of rows, the masses, and the generator after the call.
\<close>

definition get_data ::
  "np_float \<Rightarrow> 'g np_random \<Rightarrow> nat \<Rightarrow> real \<Rightarrow> real \<Rightarrow> real \<Rightarrow> real \<Rightarrow> bool \<Rightarrow> 'g
     \<Rightarrow> (real list list \<times> real list \<times> 'g) option" where
  "get_data F R n min_p max_p min_m max_m cartesian g =
     (case uniform R min_p max_p n g of (p64, g1) \<Rightarrow>
      case uniform R min_m max_m n g1 of (m64, g2) \<Rightarrow>
      case uniform R (- pi) pi n g2 of (phi64, g3) \<Rightarrow>
     (let p = map (f32 F) p64;
          m = map (f32 F) m64;
          phi = map (f32 F) phi64
      in case eta_loop F R (zeros_like p) g3 of
        None \<Rightarrow> None
      | Some (eta, g4) \<Rightarrow>
          (let e = map2 (\<lambda>a b. fsqrt F (fadd F (fmul F a a) (fmul F b b))) p m;
               theta = map (\<lambda>x. fmul F 2 (np_arctan F (np_exp F (- x)))) eta;
               pt = map2 (\<lambda>a t. fmul F a (np_cos F t)) p theta
           in if cartesian then
                (let px = map2 (\<lambda>a f. fmul F a (np_cos F f)) pt phi;
                     py = map2 (\<lambda>a f. fmul F a (np_sin F f)) pt phi;
                     pz = map2 (\<lambda>a t. fmul F a (np_sin F t)) p theta
                 in Some (stack_axis1 [e, px, py, pz], m, g4))
              else Some (stack_axis1 [e, pt, eta, phi], m, g4))))"

text \<open>
  The row that \<^verbatim>\<open>get_data\<close> derives for one sample, from its entries of \<open>p\<close>, \<open>m\<close>,
  \<open>phi\<close> and \<open>eta\<close>: the body of the function read entry by entry (lemma
  \<open>get_data_rows\<close> below is the link).
\<close>

definition sample_row :: "np_float \<Rightarrow> bool \<Rightarrow> real \<Rightarrow> real \<Rightarrow> real \<Rightarrow> real \<Rightarrow> real list" where
  "sample_row F cartesian p m phi eta =
     (let e = fsqrt F (fadd F (fmul F p p) (fmul F m m));
          theta = fmul F 2 (np_arctan F (np_exp F (- eta)));
          pt = fmul F p (np_cos F theta)
      in if cartesian then
           (let px = fmul F pt (np_cos F phi);
                py = fmul F pt (np_sin F phi);
                pz = fmul F p (np_sin F theta)
            in [e, px, py, pz])
         else [e, pt, eta, phi])"

text \<open>
  \<^verbatim>\<open>data_spec\<close> and \<^verbatim>\<open>get_batch = functools.partial(get_data, **data_spec)\<close>.
\<close>

record data_spec =
  min_p :: real
  max_p :: real
  min_m :: real
  max_m :: real
  cartesian :: bool

definition data_spec :: data_spec where
  "data_spec = \<lparr> min_p = 0, max_p = 200, min_m = 0.1, max_m = 100, cartesian = True \<rparr>"

definition get_batch ::
  "np_float \<Rightarrow> 'g np_random \<Rightarrow> data_spec \<Rightarrow> nat \<Rightarrow> 'g
     \<Rightarrow> (real list list \<times> real list \<times> 'g) option" where
  "get_batch F R ds n g =
     get_data F R n (min_p ds) (max_p ds) (min_m ds) (max_m ds) (cartesian ds) g"

section \<open>Target rescaling\<close>

text \<open>
  \<^verbatim>\<open>target_mu\<close>, \<^verbatim>\<open>target_sigma\<close> and \<^verbatim>\<open>scale_target\<close> read the module-level
  \<^verbatim>\<open>data_spec\<close>, passed here as the first argument. Applied to an array the function
  works entry by entry (\<open>map\<close>). Division is the division of the reals: it is the
  source's division only for \<open>target_sigma \<noteq> 0\<close>, that is for \<open>min_m \<noteq> max_m\<close>, which
  the statements about the scaling branch assume.
\<close>

definition target_mu :: "data_spec \<Rightarrow> real" where
  "target_mu ds = 0.5 * (min_m ds + max_m ds)"

definition target_sigma :: "data_spec \<Rightarrow> real" where
  "target_sigma ds = (max_m ds - min_m ds) / sqrt 12"

definition scale_target :: "data_spec \<Rightarrow> real \<Rightarrow> bool \<Rightarrow> real" where
  "scale_target ds target rescale =
     (if rescale then (target * target_sigma ds) + target_mu ds
      else (target - target_mu ds) / (target_sigma ds))"

section \<open>Training step and training loop\<close>

text \<open>
  The network, the gradient tape and the optimizer belong to TensorFlow. They are
  parameters: \<open>'w\<close> is the state of the model's variables, \<open>'d\<close> a list of gradients,
  \<open>'o\<close> the state of the optimizer.
  \<^item> \<open>model_call w x training\<close> is \<^verbatim>\<open>model(x, training=...)\<close>, a tensor of shape
    \<open>(n, 1)\<close> given as its rows. The notebook's model is
    \<^verbatim>\<open>get_model(n_inputs=4, n_layers=2, n_units=8)\<close>: no batch normalisation, so a call
    changes no variable.
  \<^item> \<open>tape_gradient f w\<close> is \<^verbatim>\<open>tape.gradient(loss, model.trainable_variables)\<close>, where
    \<open>f\<close> is the computation the tape recorded, as a function of the variables.
  \<^item> \<open>adam lr\<close> is \<^verbatim>\<open>tf.keras.optimizers.Adam(lr)\<close>, and \<open>apply_gradients\<close> its method,
    which updates the optimizer and the variables.
\<close>

record ('w, 'd, 'o) keras =
  model_call :: "'w \<Rightarrow> real list list \<Rightarrow> bool \<Rightarrow> real list list"
  tape_gradient :: "('w \<Rightarrow> real option) \<Rightarrow> 'w \<Rightarrow> 'd"
  adam :: "real \<Rightarrow> 'o"
  apply_gradients :: "'o \<Rightarrow> 'd \<Rightarrow> 'w \<Rightarrow> 'o \<times> 'w"

text \<open>The shape of the model's output: one row per input row, one entry per row.\<close>

definition keras_ok :: "('w, 'd, 'o) keras \<Rightarrow> bool" where
  "keras_ok K \<longleftrightarrow>
     (\<forall>w x t. length (model_call K w x t) = length x \<and>
        (\<forall>row \<in> set (model_call K w x t). length row = 1))"

text \<open>
  A model with a single weight to run the training code on: the output is the weight times
  the sum of the features, the gradient is a forward difference, and the optimizer is
  plain gradient descent with the learning rate as its state.
\<close>

definition toy_keras :: "(real, real, real) keras" where
  "toy_keras =
     \<lparr> model_call = (\<lambda>w x training. map (\<lambda>row. [w * sum_list row]) x),
       tape_gradient = (\<lambda>f w. case (f (w + 1), f w) of (Some a, Some b) \<Rightarrow> a - b | _ \<Rightarrow> 0),
       adam = (\<lambda>lr. lr),
       apply_gradients = (\<lambda>lr d w. (lr, w - lr * d)) \<rparr>"

datatype tf_error = IncompatibleShapes

text \<open>
  An operation on two one-dimensional arrays: entry by entry for equal lengths, an array
  of length one is broadcast, any other pair of lengths raises.
\<close>

definition broadcast2 :: "(real \<Rightarrow> real \<Rightarrow> 'a) \<Rightarrow> real list \<Rightarrow> real list \<Rightarrow> tf_error + 'a list" where
  "broadcast2 f xs ys =
     (if length xs = length ys then Inr (map2 f xs ys)
      else if length xs = 1 then Inr (map (f (hd xs)) ys)
      else if length ys = 1 then Inr (map (\<lambda>x. f x (hd ys)) xs)
      else Inl IncompatibleShapes)"

text \<open>
  \<^verbatim>\<open>t[:, 0]\<close> on a tensor of shape \<open>(n, 1)\<close>: the model ends in a dense layer of one
  unit, so every row has this entry (\<open>keras_ok\<close>).
\<close>

definition column0 :: "real list list \<Rightarrow> real list" where
  "column0 t = map (\<lambda>row. row ! 0) t"

text \<open>\<^verbatim>\<open>tf.reduce_mean\<close> of a one-dimensional tensor; NaN (\<open>None\<close>) when it is empty.\<close>

definition reduce_mean :: "real list \<Rightarrow> real option" where
  "reduce_mean xs = (if xs = [] then None else Some (sum_list xs / real (length xs)))"

text \<open>
  \<^verbatim>\<open>loss_func(pred, truth)\<close>. Both arguments are one-dimensional, so the mean over
  axis 0 is a scalar, and the \<^verbatim>\<open>tf.reduce_mean\<close> that \<^verbatim>\<open>train_step\<close> applies to it
  returns it unchanged.
\<close>

definition loss_func :: "real list \<Rightarrow> real list \<Rightarrow> tf_error + real option" where
  "loss_func pred truth =
     (case broadcast2 (\<lambda>a b. (a - b)\<^sup>2) pred truth of
        Inl err \<Rightarrow> Inl err
      | Inr mse \<Rightarrow> Inr (reduce_mean mse))"

text \<open>The computation \<^verbatim>\<open>train_step\<close> runs under the gradient tape, for variables \<open>w\<close>.\<close>

definition taped_loss ::
  "('w, 'd, 'o) keras \<Rightarrow> 'w \<Rightarrow> real list list \<Rightarrow> real list \<Rightarrow> tf_error + real option" where
  "taped_loss K w x truth =
     (let pred = column0 (model_call K w x True) in loss_func pred truth)"

text \<open>
  \<^verbatim>\<open>train_step(x, truth, optimizer)\<close>, with the model's variables \<open>w\<close> as explicit state.
  An exception leaves before \<^verbatim>\<open>apply_gradients\<close>: nothing is updated.
\<close>

definition train_step ::
  "('w, 'd, 'o) keras \<Rightarrow> real list list \<Rightarrow> real list \<Rightarrow> 'o \<Rightarrow> 'w
     \<Rightarrow> tf_error + (real option \<times> 'o \<times> 'w)" where
  "train_step K x truth optimizer w =
     (case taped_loss K w x truth of
        Inl err \<Rightarrow> Inl err
      | Inr loss \<Rightarrow>
          (let gradients =
                 tape_gradient K
                   (\<lambda>v. case taped_loss K v x truth of Inl err \<Rightarrow> None | Inr l \<Rightarrow> l) w
           in case apply_gradients K optimizer gradients w of
                (optimizer1, w1) \<Rightarrow> Inr (loss, optimizer1, w1)))"

text \<open>
  The \<^verbatim>\<open>for\<close> loop of \<^verbatim>\<open>train_loop\<close>: a fresh batch of 64 and one step on the scaled
  masses, \<open>k\<close> times. The progress bar only displays the loss. \<open>F\<close> is the number format
  of the sampler's arrays; what the training code computes from them is not rounded.
\<close>

fun train_iterations ::
  "np_float \<Rightarrow> ('w, 'd, 'o) keras \<Rightarrow> 'g np_random \<Rightarrow> data_spec \<Rightarrow> nat \<Rightarrow> 'o \<Rightarrow> 'w \<Rightarrow> 'g
     \<Rightarrow> (tf_error + ('o \<times> 'w \<times> 'g)) option" where
  "train_iterations F K R ds 0 optimizer w g = Some (Inr (optimizer, w, g))"
| "train_iterations F K R ds (Suc k) optimizer w g =
     (case get_batch F R ds 64 g of
        None \<Rightarrow> None
      | Some (vec, truth, g1) \<Rightarrow>
          (case train_step K vec (map (\<lambda>t. scale_target ds t False) truth) optimizer w of
             Inl err \<Rightarrow> Some (Inl err)
           | Inr (loss, optimizer1, w1) \<Rightarrow> train_iterations F K R ds k optimizer1 w1 g1))"

text \<open>
  Division of arrays. A zero divisor raises nothing: the entry becomes an infinity or NaN,
  which is \<open>None\<close> here, and a comparison \<^verbatim>\<open>abs(r) < c\<close> is false for both.
\<close>

definition np_div :: "real \<Rightarrow> real \<Rightarrow> real option" where
  "np_div a b = (if b = 0 then None else Some (a / b))"

fun abs_lt :: "real option \<Rightarrow> real \<Rightarrow> bool" where
  "abs_lt None c = False"
| "abs_lt (Some r) c = (\<bar>r\<bar> < c)"

text \<open>
  What a call of \<^verbatim>\<open>train_loop\<close> leaves: the percentage it prints (before the
  formatting to two decimals), the relative errors, the returned pair
  \<^verbatim>\<open>(pred, truth)\<close>, and the model's variables and the generator after the call.
\<close>

record ('w, 'g) loop_result =
  printed :: "real option"
  rel_errors :: "real option list"
  returned_pred :: "real list"
  returned_truth :: "real list"
  variables_after :: 'w
  generator_after :: 'g

text \<open>
  \<^verbatim>\<open>train_loop(n_iterations, learning_rate=0.003)\<close>. The plots that follow the printed
  line read \<^verbatim>\<open>rel_err\<close>, \<^verbatim>\<open>vec\<close> and \<^verbatim>\<open>truth\<close> and change nothing; they are left out.
\<close>

definition train_loop ::
  "np_float \<Rightarrow> ('w, 'd, 'o) keras \<Rightarrow> 'g np_random \<Rightarrow> data_spec \<Rightarrow> nat \<Rightarrow> real \<Rightarrow> 'w \<Rightarrow> 'g
     \<Rightarrow> (tf_error + ('w, 'g) loop_result) option" where
  "train_loop F K R ds n_iterations learning_rate w g =
     (let optimizer = adam K learning_rate in
      case train_iterations F K R ds n_iterations optimizer w g of
        None \<Rightarrow> None
      | Some (Inl err) \<Rightarrow> Some (Inl err)
      | Some (Inr (optimizer1, w1, g1)) \<Rightarrow>
          (case get_batch F R ds 20000 g1 of
             None \<Rightarrow> None
           | Some (vec, truth, g2) \<Rightarrow>
               (let pred_raw = column0 (model_call K w1 vec False);
                    pred = map (\<lambda>t. scale_target ds t True) pred_raw
                in case broadcast2 (\<lambda>a b. np_div (a - b) b) pred truth of
                     Inl err \<Rightarrow> Some (Inl err)
                   | Inr rel_err \<Rightarrow>
                       Some (Inr \<lparr> printed =
                                     map_option (\<lambda>f. 100 * f)
                                       (np_mean (map (\<lambda>r. abs_lt r 0.10) rel_err)),
                                   rel_errors = rel_err, returned_pred = pred,
                                   returned_truth = truth,
                                   variables_after = w1, generator_after = g2 \<rparr>))))"

section \<open>The feature-scaling layer\<close>

text \<open>
  \<^verbatim>\<open>class FeatureScaling(tf.keras.layers.Layer)\<close>: the instance holds the flag given to
  the base class, the two members, and the variables the layer has created.
\<close>

record feature_scaling =
  trainable :: bool
  means :: "real list"
  stddevs :: "real list"
  weights :: "real list list"

definition FeatureScaling_init :: "real list \<Rightarrow> real list \<Rightarrow> feature_scaling" where
  "FeatureScaling_init mu sd =
     \<lparr> trainable = False, means = mu, stddevs = sd, weights = [] \<rparr>"

definition get_config :: "feature_scaling \<Rightarrow> (string \<times> real list) list" where
  "get_config self = [(''means'', means self), (''stddevs'', stddevs self)]"

definition compute_output_shape :: "nat \<times> nat \<Rightarrow> nat \<times> nat" where
  "compute_output_shape input_shape = (fst input_shape, snd input_shape)"

definition build :: "feature_scaling \<Rightarrow> nat \<times> nat \<Rightarrow> feature_scaling" where
  "build self input_shape = self"

text \<open>
  \<^verbatim>\<open>call(self, x)\<close> on a batch of rows: each row is combined with \<^verbatim>\<open>self.means\<close> and
  \<^verbatim>\<open>self.stddevs\<close> along its last axis. The instance is returned with the output, as
  the call leaves it.
\<close>

definition call_row :: "feature_scaling \<Rightarrow> real list \<Rightarrow> tf_error + real option list" where
  "call_row self row =
     (case broadcast2 (\<lambda>a b. a - b) row (means self) of
        Inl err \<Rightarrow> Inl err
      | Inr d \<Rightarrow> broadcast2 (\<lambda>a b. np_div a b) d (stddevs self))"

fun call_rows :: "feature_scaling \<Rightarrow> real list list \<Rightarrow> tf_error + real option list list" where
  "call_rows self [] = Inr []"
| "call_rows self (row # rows) =
     (case call_row self row of
        Inl err \<Rightarrow> Inl err
      | Inr y \<Rightarrow> (case call_rows self rows of Inl err \<Rightarrow> Inl err | Inr ys \<Rightarrow> Inr (y # ys)))"

definition call ::
  "feature_scaling \<Rightarrow> real list list \<Rightarrow> (tf_error + real option list list) \<times> feature_scaling" where
  "call self x = (call_rows self x, self)"

section \<open>Properties of the rounding\<close>

subsection \<open>Order, fixed points and underflow\<close>

lemma rne_of_int: "rne (of_int k) = k"
  by (simp add: rne_def)

lemma rne_floor_le: "\<lfloor>y\<rfloor> \<le> rne y" and rne_le_floor: "rne y \<le> \<lfloor>y\<rfloor> + 1"
  by (simp_all add: rne_def Let_def)

lemma rne_mono: "x \<le> y \<Longrightarrow> rne x \<le> rne y"
proof -
  assume le: "x \<le> y"
  then have fl: "\<lfloor>x\<rfloor> \<le> \<lfloor>y\<rfloor>"
    by (rule floor_mono)
  show ?thesis
  proof (cases "\<lfloor>x\<rfloor> = \<lfloor>y\<rfloor>")
    case True
    with le show ?thesis
      by (auto simp: rne_def Let_def)
  next
    case False
    with fl have "\<lfloor>x\<rfloor> + 1 \<le> \<lfloor>y\<rfloor>"
      by simp
    with rne_le_floor [of x] rne_floor_le [of y] show ?thesis
      by linarith
  qed
qed

lemma rne_minus: "rne (- y) = - rne y"
proof (cases "y \<in> \<int>")
  case True
  then obtain k where "y = of_int k"
    by (auto elim: Ints_cases)
  then have "- y = of_int (- k)"
    by simp
  then show ?thesis
    using rne_of_int [of "- k"] rne_of_int [of k] \<open>y = of_int k\<close> by simp
next
  case False
  then have ne: "y \<noteq> of_int \<lfloor>y\<rfloor>"
    by (metis Ints_of_int)
  then have fl: "\<lfloor>- y\<rfloor> = - \<lfloor>y\<rfloor> - 1"
    by (simp add: floor_minus ceiling_altdef)
  have r: "0 < y - of_int \<lfloor>y\<rfloor>"
    using ne of_int_floor_le [of y] by linarith
  show ?thesis
    using r by (auto simp: rne_def Let_def fl)
qed

lemma rne_near: "\<bar>of_int (rne y) - y\<bar> \<le> 1 / 2"
  by (auto simp: rne_def Let_def abs_le_iff)

lemma quantum32_pos: "0 < quantum32 x"
  by (simp add: quantum32_def)

lemma exponent32_minus: "exponent32 (- x) = exponent32 x"
  by (simp add: exponent32_def)

lemma quantum32_minus: "quantum32 (- x) = quantum32 x"
  by (simp add: quantum32_def exponent32_minus)

lemma round32_minus: "round32 (- x) = - round32 x"
  by (simp add: round32_def quantum32_minus rne_minus)

lemma round32_zero: "round32 0 = 0"
  by (simp add: round32_def rne_def)

lemma round32_nonneg: "0 \<le> x \<Longrightarrow> 0 \<le> round32 x"
proof -
  assume "0 \<le> x"
  then have "0 \<le> x / quantum32 x"
    using quantum32_pos [of x] by simp
  then have "rne 0 \<le> rne (x / quantum32 x)"
    by (rule rne_mono)
  then have "0 \<le> rne (x / quantum32 x)"
    using rne_of_int [of 0] by simp
  then show ?thesis
    using quantum32_pos [of x] by (simp add: round32_def)
qed

lemma log2_ge:
  assumes "2 powr (- 126) \<le> x"
  shows "0 < x" and "- 126 \<le> \<lfloor>log 2 x\<rfloor>"
proof -
  show pos: "0 < x"
    using assms by (smt (verit) powr_gt_zero)
  have "log 2 (2 powr (- 126)) \<le> log 2 x"
    using assms pos by (subst log_le_cancel_iff) simp_all
  then have "- 126 \<le> log 2 x"
    by simp
  then show "- 126 \<le> \<lfloor>log 2 x\<rfloor>"
    by (simp add: le_floor_iff)
qed

lemma exponent32_ge: "- 126 \<le> exponent32 x"
  using log2_ge(2) [of "\<bar>x\<bar>"] by (simp add: exponent32_def)

lemma exponent32_mono: "0 < x \<Longrightarrow> x \<le> y \<Longrightarrow> exponent32 x \<le> exponent32 y"
proof -
  assume "0 < x" "x \<le> y"
  then have "log 2 \<bar>x\<bar> \<le> log 2 \<bar>y\<bar>"
    by simp
  then have "\<lfloor>log 2 \<bar>x\<bar>\<rfloor> \<le> \<lfloor>log 2 \<bar>y\<bar>\<rfloor>"
    by (rule floor_mono)
  then show ?thesis
    using \<open>0 < x\<close> \<open>x \<le> y\<close> log2_ge(2) [of "\<bar>y\<bar>"] by (simp add: exponent32_def)
qed

lemma less_binade: 
  assumes "0 < x"
  shows "x < 2 powr (of_int (exponent32 x) + 1)"
proof (cases "x < 2 powr (- 126)")
  case True
  have "(2::real) powr (- 126) \<le> 2 powr (- 125)"
    by (subst powr_le_cancel_iff) simp_all
  with True have "x < 2 powr (- 125)"
    by linarith
  moreover have "exponent32 x = - 126"
    using True assms by (simp add: exponent32_def)
  ultimately show ?thesis
    by simp
next
  case False
  have "x < 2 powr (of_int \<lfloor>log 2 x\<rfloor> + 1)"
    using assms floor_log_eq_powr_iff [of x 2 "\<lfloor>log 2 x\<rfloor>"] by simp
  with False assms show ?thesis
    by (simp add: exponent32_def)
qed

lemma ge_binade:
  assumes "2 powr (- 126) \<le> x"
  shows "2 powr (of_int (exponent32 x)) \<le> x"
proof -
  have pos: "0 < x"
    using assms by (rule log2_ge)
  then have "exponent32 x = \<lfloor>log 2 x\<rfloor>"
    using assms by (simp add: exponent32_def)
  then show "2 powr (of_int (exponent32 x)) \<le> x"
    using pos floor_log_eq_powr_iff [of x 2 "\<lfloor>log 2 x\<rfloor>"] by simp
qed

lemma quantum32_scale: "quantum32 x * 8388608 = 2 powr (of_int (exponent32 x))"
  by (simp add: quantum32_def powr_diff)

lemma rne_numeral: "rne (numeral k) = numeral k"
  using rne_of_int [of "numeral k"] by simp

lemma round32_le_binade:
  assumes "0 < x"
  shows "round32 x \<le> 2 powr (of_int (exponent32 x) + 1)"
proof -
  let ?q = "quantum32 x"
  have top: "2 powr (of_int (exponent32 x) + 1) = ?q * 16777216"
    by (simp add: quantum32_def powr_diff powr_add)
  have "x < ?q * 16777216"
    using less_binade [OF assms] by (simp only: top)
  then have "x / ?q \<le> 16777216"
    using quantum32_pos [of x] by (simp add: field_simps)
  then have "rne (x / ?q) \<le> rne 16777216"
    by (rule rne_mono)
  then have "rne (x / ?q) \<le> 16777216"
    by (simp only: rne_numeral)
  then have "of_int (rne (x / ?q)) \<le> (16777216::real)"
    by linarith
  then have "?q * of_int (rne (x / ?q)) \<le> ?q * 16777216"
    using quantum32_pos [of x] by (intro mult_left_mono) simp_all
  then show ?thesis
    by (simp only: round32_def top)
qed

lemma round32_ge_binade:
  assumes "2 powr (- 126) \<le> x"
  shows "2 powr (of_int (exponent32 x)) \<le> round32 x"
proof -
  let ?q = "quantum32 x"
  have "?q * 8388608 \<le> x"
    using ge_binade [OF assms] by (simp only: quantum32_scale)
  then have "8388608 \<le> x / ?q"
    using quantum32_pos [of x] by (simp add: field_simps)
  then have "rne 8388608 \<le> rne (x / ?q)"
    by (rule rne_mono)
  then have "8388608 \<le> rne (x / ?q)"
    by (simp only: rne_numeral)
  then have "(8388608::real) \<le> of_int (rne (x / ?q))"
    by linarith
  then have "?q * 8388608 \<le> ?q * of_int (rne (x / ?q))"
    using quantum32_pos [of x] by (intro mult_left_mono) simp_all
  then show ?thesis
    by (simp only: round32_def quantum32_scale)
qed

lemma round32_mono_pos:
  assumes "0 < x" and "x \<le> y"
  shows "round32 x \<le> round32 y"
proof (cases "exponent32 x = exponent32 y")
  case True
  then have q: "quantum32 x = quantum32 y"
    by (simp add: quantum32_def)
  have "x / quantum32 y \<le> y / quantum32 y"
    using assms quantum32_pos [of y] by (simp add: divide_right_mono)
  then have "rne (x / quantum32 y) \<le> rne (y / quantum32 y)"
    by (rule rne_mono)
  then show ?thesis
    using quantum32_pos [of y] by (simp add: round32_def q)
next
  case False
  with exponent32_mono [OF assms] have lt: "exponent32 x + 1 \<le> exponent32 y"
    by simp
  then have "- 126 < exponent32 y"
    using exponent32_ge [of x] by linarith
  then have big: "2 powr (- 126) \<le> y"
    using assms by (simp add: exponent32_def split: if_splits)
  have "round32 x \<le> 2 powr (of_int (exponent32 x) + 1)"
    using assms(1) by (rule round32_le_binade)
  also have "\<dots> \<le> 2 powr (of_int (exponent32 y))"
  proof -
    from lt have "real_of_int (exponent32 x) + 1 \<le> real_of_int (exponent32 y)"
      by linarith
    then show ?thesis
      by simp
  qed
  also have "\<dots> \<le> round32 y"
    using big by (rule round32_ge_binade)
  finally show ?thesis .
qed

lemma round32_mono: "x \<le> y \<Longrightarrow> round32 x \<le> round32 y"
proof -
  assume le: "x \<le> y"
  consider "0 < x" | "x \<le> 0" "0 \<le> y" | "y < 0"
    by linarith
  then show ?thesis
  proof cases
    case 1
    then show ?thesis using le by (rule round32_mono_pos)
  next
    case 2
    then have "0 \<le> round32 (- x)" and "0 \<le> round32 y"
      by (simp_all add: round32_nonneg)
    then show ?thesis
      by (simp add: round32_minus)
  next
    case 3
    then have "0 < - y" and "- y \<le> - x"
      using le by simp_all
    then have "round32 (- y) \<le> round32 (- x)"
      by (rule round32_mono_pos)
    then show ?thesis
      by (simp add: round32_minus)
  qed
qed

lemma exponent32_normal:
  assumes "2 powr (of_int e) \<le> \<bar>x\<bar>" and "\<bar>x\<bar> < 2 powr (of_int e + 1)" and "- 126 \<le> e"
  shows "exponent32 x = e"
proof -
  have "0 < \<bar>x\<bar>"
    using assms(1) by (smt (verit) powr_gt_zero)
  then have fl: "\<lfloor>log 2 \<bar>x\<bar>\<rfloor> = e"
    using assms(1,2) floor_log_eq_powr_iff [of "\<bar>x\<bar>" 2 e] by simp
  have "(2::real) powr (- 126) \<le> 2 powr (of_int e)"
    using assms(3) by (subst powr_le_cancel_iff) simp_all
  with assms(1) have "\<not> \<bar>x\<bar> < 2 powr (- 126)"
    by linarith
  with fl show ?thesis
    by (simp add: exponent32_def)
qed

lemma exponent32_subnormal: "\<bar>x\<bar> < 2 powr (- 126) \<Longrightarrow> exponent32 x = - 126"
  by (simp add: exponent32_def)

lemma round32_grid:
  assumes "x / 2 powr (of_int (exponent32 x) - 23) = of_int k"
  shows "round32 x = x"
proof -
  have "round32 x = quantum32 x * of_int (rne (x / quantum32 x))"
    by (simp add: round32_def)
  also have "\<dots> = quantum32 x * (x / quantum32 x)"
    using assms by (simp add: quantum32_def rne_of_int)
  also have "\<dots> = x"
    using quantum32_pos [of x] by simp
  finally show ?thesis .
qed

lemma round32_exact_normal:
  assumes "2 powr (of_int e) \<le> \<bar>x\<bar>" and "\<bar>x\<bar> < 2 powr (of_int e + 1)" and "- 126 \<le> e"
    and "x / 2 powr (of_int e - 23) = of_int k"
  shows "round32 x = x"
  using assms(4) exponent32_normal [OF assms(1-3)] by (intro round32_grid [of x k]) simp

lemma round32_exact_subnormal:
  assumes "\<bar>x\<bar> < 2 powr (- 126)" and "x / 2 powr (- 149) = of_int k"
  shows "round32 x = x"
  using assms(2) exponent32_subnormal [OF assms(1)] by (intro round32_grid [of x k]) simp



lemma round32_idem_pos:
  assumes "0 < x"
  shows "round32 (round32 x) = round32 x"
proof -
  let ?q = "quantum32 x" and ?e = "exponent32 x"
  let ?k = "rne (x / ?q)"
  have y: "round32 x = ?q * of_int ?k"
    by (simp add: round32_def)
  have ykq: "round32 x / ?q = of_int ?k"
    using quantum32_pos [of x] by (simp add: y)
  have nonneg: "0 \<le> round32 x"
    using assms by (simp add: round32_nonneg)
  show ?thesis
  proof (cases "2 powr (- 126) \<le> x")
    case True
    have lo: "2 powr (of_int ?e) \<le> round32 x"
      using True by (rule round32_ge_binade)
    have hi: "round32 x \<le> 2 powr (of_int ?e + 1)"
      using assms by (rule round32_le_binade)
    have e: "- 126 \<le> ?e"
      by (rule exponent32_ge)
    show ?thesis
    proof (cases "round32 x < 2 powr (of_int ?e + 1)")
      case True
      show ?thesis
      proof (rule round32_exact_normal [where e = ?e and k = ?k])
        show "2 powr (of_int ?e) \<le> \<bar>round32 x\<bar>"
          using lo nonneg by simp
        show "\<bar>round32 x\<bar> < 2 powr (of_int ?e + 1)"
          using True nonneg by simp
        show "- 126 \<le> ?e"
          by (rule e)
        show "round32 x / 2 powr (of_int ?e - 23) = of_int ?k"
          using ykq by (simp add: quantum32_def)
      qed
    next
      case False
      with hi have top: "round32 x = 2 powr (of_int ?e + 1)"
        by simp
      show ?thesis
      proof (rule round32_exact_normal [where e = "?e + 1" and k = 8388608])
        show "2 powr (of_int (?e + 1)) \<le> \<bar>round32 x\<bar>"
          by (simp add: top)
        show "\<bar>round32 x\<bar> < 2 powr (of_int (?e + 1) + 1)"
          by (simp add: top)
        show "- 126 \<le> ?e + 1"
          using e by simp
        show "round32 x / 2 powr (of_int (?e + 1) - 23) = of_int 8388608"
          by (simp add: top powr_diff powr_add)
      qed
    qed
  next
    case False
    then have sub: "\<bar>x\<bar> < 2 powr (- 126)"
      using assms by simp
    have q: "?q = 2 powr (- 149)"
      using exponent32_subnormal [OF sub] by (simp add: quantum32_def)
    have scale: "(2::real) powr (- 126) = 2 powr (- 149) * 8388608"
      by (simp add: powr_minus field_simps)
    with sub assms have "x / ?q \<le> 8388608"
      by (simp add: q field_simps)
    then have "?k \<le> rne 8388608"
      by (rule rne_mono)
    then have "?k \<le> 8388608"
      by (simp only: rne_numeral)
    then have "of_int ?k \<le> (8388608::real)"
      by linarith
    then have "?q * of_int ?k \<le> ?q * 8388608"
      using quantum32_pos [of x] by (intro mult_left_mono) simp_all
    then have le: "round32 x \<le> 2 powr (- 126)"
      by (simp add: y q powr_minus field_simps)
    show ?thesis
    proof (cases "round32 x < 2 powr (- 126)")
      case True
      show ?thesis
      proof (rule round32_exact_subnormal [where k = ?k])
        show "\<bar>round32 x\<bar> < 2 powr (- 126)"
          using True nonneg by simp
        show "round32 x / 2 powr (- 149) = of_int ?k"
          using ykq by (simp add: q)
      qed
    next
      case False
      with le have top: "round32 x = 2 powr (- 126)"
        by simp
      show ?thesis
      proof (rule round32_exact_normal [where e = "- 126" and k = 8388608])
        show "2 powr (of_int (- 126)) \<le> \<bar>round32 x\<bar>"
          by (simp add: top)
        show "\<bar>round32 x\<bar> < 2 powr (of_int (- 126) + 1)"
          by (simp add: top)
        show "- 126 \<le> (- 126 :: int)"
          by simp
        show "round32 x / 2 powr (of_int (- 126) - 23) = of_int 8388608"
          by (simp add: top scale)
      qed
    qed
  qed
qed

lemma round32_idem: "round32 (round32 x) = round32 x"
proof -
  consider "0 < x" | "x = 0" | "x < 0"
    by linarith
  then show ?thesis
  proof cases
    case 1
    then show ?thesis by (rule round32_idem_pos)
  next
    case 2
    then show ?thesis by (simp add: round32_zero)
  next
    case 3
    then have "round32 (round32 (- x)) = round32 (- x)"
      by (intro round32_idem_pos) simp
    then show ?thesis
      by (simp add: round32_minus)
  qed
qed

subsection \<open>The polar angle of pseudorapidity zero in binary32\<close>

lemma arctan_brackets:
  fixes x :: real
  assumes "0 < x" and "x \<le> 1"
  shows "(\<Sum>i<2 * n. (- 1) ^ i * (1 / real (i * 2 + 1) * x ^ (i * 2 + 1))) \<le> arctan x"
    and "arctan x \<le> (\<Sum>i<2 * n + 1. (- 1) ^ i * (1 / real (i * 2 + 1) * x ^ (i * 2 + 1)))"
proof -
  have abs: "\<bar>x\<bar> \<le> 1"
    using assms by simp
  have "0 < 1 / real (0 * 2 + 1) * x ^ (0 * 2 + 1)"
    using assms by simp
  with summable_Leibniz(2) [OF zeroseq_arctan_series [OF abs] monoseq_arctan_series [OF abs]]
  have "(\<Sum>i. (- 1) ^ i * (1 / real (i * 2 + 1) * x ^ (i * 2 + 1))) \<in>
          {\<Sum>i<2 * n. (- 1) ^ i * (1 / real (i * 2 + 1) * x ^ (i * 2 + 1)) ..
           \<Sum>i<2 * n + 1. (- 1) ^ i * (1 / real (i * 2 + 1) * x ^ (i * 2 + 1))}"
    by blast
  then show "(\<Sum>i<2 * n. (- 1) ^ i * (1 / real (i * 2 + 1) * x ^ (i * 2 + 1))) \<le> arctan x"
    and "arctan x \<le> (\<Sum>i<2 * n + 1. (- 1) ^ i * (1 / real (i * 2 + 1) * x ^ (i * 2 + 1)))"
    by (simp_all add: arctan_series [OF abs])
qed

lemma sum_lessThan_7: "(\<Sum>i<7. f i) = f 0 + f 1 + f 2 + f 3 + f 4 + f 5 + f 6" for f :: "nat \<Rightarrow> real"
  by (simp add: eval_nat_numeral)

lemma sum_lessThan_6: "(\<Sum>i<6. f i) = f 0 + f 1 + f 2 + f 3 + f 4 + f 5" for f :: "nat \<Rightarrow> real"
  by (simp add: eval_nat_numeral)

lemma sum_lessThan_3: "(\<Sum>i<3. f i) = f 0 + f 1 + f 2" for f :: "nat \<Rightarrow> real"
  by (simp add: eval_nat_numeral)

lemma sum_lessThan_2: "(\<Sum>i<2. f i) = f 0 + f 1" for f :: "nat \<Rightarrow> real"
  by (simp add: eval_nat_numeral)

lemma arctan_fifth:
  shows "0.19739555978 < arctan (1 / 5)" and "arctan (1 / 5) < (0.1973955599 :: real)"
proof -
  have "(\<Sum>i<2 * 3. (- 1) ^ i * (1 / real (i * 2 + 1) * (1 / 5) ^ (i * 2 + 1))) \<le> arctan (1 / 5)"
    by (rule arctan_brackets) simp_all
  then show "0.19739555978 < arctan (1 / 5)"
    by (simp add: sum_lessThan_6 power_divide)
  have "arctan (1 / 5) \<le> (\<Sum>i<2 * 3 + 1. (- 1) ^ i * (1 / real (i * 2 + 1) * (1 / 5) ^ (i * 2 + 1)))"
    by (rule arctan_brackets) simp_all
  then show "arctan (1 / 5) < (0.1973955599 :: real)"
    by (simp add: sum_lessThan_7 power_divide)
qed

lemma arctan_239:
  shows "0.0041840760018 < arctan (1 / 239)" and "arctan (1 / 239) < (0.0041840760021 :: real)"
proof -
  have "(\<Sum>i<2 * 1. (- 1) ^ i * (1 / real (i * 2 + 1) * (1 / 239) ^ (i * 2 + 1))) \<le> arctan (1 / 239)"
    by (rule arctan_brackets) simp_all
  then show "0.0041840760018 < arctan (1 / 239)"
    by (simp add: sum_lessThan_2 power_divide)
  have "arctan (1 / 239) \<le> (\<Sum>i<2 * 1 + 1. (- 1) ^ i * (1 / real (i * 2 + 1) * (1 / 239) ^ (i * 2 + 1)))"
    by (rule arctan_brackets) simp_all
  then show "arctan (1 / 239) < (0.0041840760021 :: real)"
    by (simp add: sum_lessThan_3 power_divide)
qed

lemma pi_bounds:
  shows "3.14159263 < pi" and "pi < 3.1415927"
proof -
  show "3.14159263 < pi"
    using machin arctan_fifth(1) arctan_239(2) by simp
  show "pi < 3.1415927"
    using machin arctan_fifth(2) arctan_239(1) by simp
qed

lemma round32_one: "round32 1 = 1"
  by (rule round32_exact_normal [where e = 0 and k = 8388608]) (simp_all add: powr_minus)

lemma round32_sixty: "round32 60 = 60"
  by (rule round32_exact_normal [where e = 5 and k = 15728640])
    (simp_all add: powr_minus powr_diff)

lemma round32_theta: "round32 (2 * (13176795 / 16777216)) = 13176795 / 8388608"
proof -
  have "round32 (13176795 / 8388608) = 13176795 / 8388608"
    by (rule round32_exact_normal [where e = 0 and k = 13176795]) (simp_all add: powr_minus)
  then show ?thesis
    by simp
qed

lemma round32_small: "round32 (- (1 / 67108864)) = - (1 / 67108864)"
  by (rule round32_exact_normal [where e = "- 26" and k = "- 8388608"])
    (simp_all add: powr_minus powr_diff)

lemma round32_quarter_pi: "round32 (pi / 4) = 13176795 / 16777216"
proof -
  have lo: "2 powr (of_int (- 1)) \<le> \<bar>pi / 4\<bar>" and hi: "\<bar>pi / 4\<bar> < 2 powr (of_int (- 1) + 1)"
    using pi_bounds by (simp_all add: powr_minus)
  have e: "exponent32 (pi / 4) = - 1"
    using lo hi by (rule exponent32_normal) simp
  have q: "quantum32 (pi / 4) = 1 / 16777216"
    by (simp add: quantum32_def e powr_minus)
  have fl: "\<lfloor>pi * 4194304\<rfloor> = 13176794"
    using pi_bounds by (simp add: floor_eq_iff)
  have "rne (pi * 4194304) = 13176795"
    using pi_bounds by (simp add: rne_def fl)
  then show ?thesis
    by (simp add: round32_def q mult.commute)
qed

lemma theta_gap:
  shows "1 / 50000000 < 13176795 / 8388608 - pi / 2"
    and "13176795 / 8388608 - pi / 2 < 6 / 100000000"
  using pi_bounds by simp_all

lemma sin_small_lower:
  fixes d :: real
  assumes "0 \<le> d" and "d \<le> 1"
  shows "d - d ^ 3 / 6 \<le> sin d"
proof -
  have "(\<Sum>m<3. sin_coeff m * d ^ m) = d"
    by (simp add: sum_lessThan_3 sin_coeff_def)
  with Maclaurin_sin_bound [of d 3] have "\<bar>sin d - d\<bar> \<le> inverse (fact 3) * \<bar>d\<bar> ^ 3"
    by simp
  moreover have "fact 3 = (6::real)"
    by (simp add: eval_nat_numeral)
  ultimately have "\<bar>sin d - d\<bar> \<le> d ^ 3 / 6"
    using assms by (simp add: field_simps)
  then show ?thesis
    by linarith
qed

lemma cos_small_lower: "1 - d\<^sup>2 / 2 \<le> cos d" for d :: real
proof -
  have "\<bar>sin (d / 2)\<bar> \<le> \<bar>d / 2\<bar>"
    by (rule abs_sin_x_le_abs_x)
  then have "(sin (d / 2))\<^sup>2 \<le> (d / 2)\<^sup>2"
    by (rule abs_le_square_iff [THEN iffD1])
  moreover have "cos d = 1 - 2 * (sin (d / 2))\<^sup>2"
    using cos_double_sin [of "d / 2"] by simp
  ultimately show ?thesis
    by (simp add: power_divide)
qed

lemma small_angle:
  fixes d :: real
  assumes "1 / 50000000 < d" and "d < 6 / 100000000"
  shows "1 / 67108864 \<le> sin d" and "67108863 / 67108864 \<le> cos d"
proof -
  have d01: "0 \<le> d" "d \<le> 1"
    using assms by simp_all
  have "d * d \<le> 1 * 1"
    using d01 by (intro mult_mono) simp_all
  then have "d * (d * d) \<le> d * 1"
    using d01 by (intro mult_left_mono) simp_all
  then have "d ^ 3 \<le> d"
    by (simp add: power3_eq_cube mult.assoc)
  with sin_small_lower [OF d01] have "d * (5 / 6) \<le> sin d"
    by simp
  with assms(1) show "1 / 67108864 \<le> sin d"
    by simp
  have "d * d \<le> (6 / 100000000) * (6 / 100000000)"
    using d01 assms(2) by (intro mult_mono) simp_all
  then have "d\<^sup>2 \<le> 1 / 33554432"
    by (simp add: power2_eq_square)
  with cos_small_lower [of d] show "67108863 / 67108864 \<le> cos d"
    by simp
qed

lemma cos_theta: "cos (13176795 / 8388608) \<le> - (1 / 67108864 :: real)"
proof -
  have "cos (13176795 / 8388608) = - sin (13176795 / 8388608 - pi / 2)"
    by (simp add: sin_diff)
  with small_angle(1) [OF theta_gap] show ?thesis
    by simp
qed

lemma sin_theta: "67108863 / 67108864 \<le> sin (13176795 / 8388608 :: real)"
proof -
  have "sin (13176795 / 8388608) = cos (13176795 / 8388608 - pi / 2)"
    by (simp add: cos_diff)
  with small_angle(2) [OF theta_gap] show ?thesis
    by simp
qed

lemma round32_near_one: "round32 (67108863 / 67108864) = 1"
proof -
  have lo: "2 powr (of_int (- 1)) \<le> \<bar>67108863 / 67108864 :: real\<bar>"
    and hi: "\<bar>67108863 / 67108864 :: real\<bar> < 2 powr (of_int (- 1) + 1)"
    by (simp_all add: powr_minus)
  have e: "exponent32 (67108863 / 67108864) = - 1"
    using lo hi by (rule exponent32_normal) simp
  have q: "quantum32 (67108863 / 67108864) = 1 / 16777216"
    by (simp add: quantum32_def e powr_minus)
  have v: "(67108863 / 67108864) / (1 / 16777216) = (67108863 / 4 :: real)"
    by simp
  have fl: "\<lfloor>67108863 / 4 :: real\<rfloor> = 16777215"
    by (simp add: floor_eq_iff)
  have "rne (67108863 / 4) = 16777216"
    by (simp add: rne_def fl)
  then show ?thesis
    by (simp only: round32_def q v)
qed

lemma round32_sin_theta: "round32 (sin (13176795 / 8388608)) = 1"
proof -
  have "round32 (67108863 / 67108864) \<le> round32 (sin (13176795 / 8388608))"
    using sin_theta by (rule round32_mono)
  moreover have "round32 (sin (13176795 / 8388608)) \<le> round32 1"
    by (rule round32_mono) simp
  ultimately show ?thesis
    by (simp add: round32_near_one round32_one)
qed

lemma round32_cos_theta: "round32 (cos (13176795 / 8388608)) \<le> - (1 / 67108864)"
  using round32_mono [OF cos_theta] by (simp add: round32_small)

section \<open>Properties of the sampler\<close>

subsection \<open>Shapes, the loop and the rows of a batch\<close>

lemma length_draw_n: "length (fst (draw_n d n g)) = n"
  by (induction n arbitrary: g) (auto simp: split_beta Let_def)

lemma length_uniform: "uniform R low high n g = (xs, g') \<Longrightarrow> length xs = n"
  using length_draw_n [of "uniform1 R low high" n g] by (simp add: uniform_def)

lemma length_assign_masked: "length (assign_masked xs bs vs) = length xs"
  by (induction xs bs vs rule: assign_masked.induct) auto

lemma eta_loop_length_aux:
  assumes "eta_loop F R eta g = Some y"
  shows "length (fst y) = length eta"
proof (rule eta_loop.raw_induct
    [where P = "\<lambda>F R eta g y. length (fst y) = length eta", OF _ assms])
  fix loop :: "np_float \<Rightarrow> 'a np_random \<Rightarrow> real list \<Rightarrow> 'a \<Rightarrow> (real list \<times> 'a) option"
  fix F R eta g y
  assume IH: "\<And>F R eta g y. loop F R eta g = Some y \<Longrightarrow> length (fst y) = length eta"
  assume body: "(if nan_gt (np_mean (map (\<lambda>x. \<bar>x\<bar> > 2.5) eta)) 0.05 then
        (let mask = map (\<lambda>x. \<bar>x\<bar> > 2.5) eta in
         case normal R 0 2.5 (length (filter id mask)) g of
           (vs, g1) \<Rightarrow> loop F R (assign_masked eta mask (map (f32 F) vs)) g1)
      else Some (eta, g)) = Some y"
  show "length (fst y) = length eta"
  proof (cases "nan_gt (np_mean (map (\<lambda>x. \<bar>x\<bar> > 2.5) eta)) 0.05")
    case True
    obtain vs g1 where
      d: "normal R 0 2.5 (length (filter id (map (\<lambda>x. \<bar>x\<bar> > 2.5) eta))) g = (vs, g1)"
      by (cases "normal R 0 2.5 (length (filter id (map (\<lambda>x. \<bar>x\<bar> > 2.5) eta))) g")
    from body True d
    have "loop F R (assign_masked eta (map (\<lambda>x. \<bar>x\<bar> > 2.5) eta) (map (f32 F) vs)) g1 = Some y"
      by (simp add: Let_def)
    from IH [OF this] show ?thesis
      by (simp add: length_assign_masked)
  next
    case False
    with body show ?thesis by auto
  qed
qed

lemma eta_loop_length:
  "eta_loop F R eta g = Some (eta', g') \<Longrightarrow> length eta' = length eta"
  using eta_loop_length_aux [of F R eta g "(eta', g')"] by simp

lemma eta_loop_exit_aux:
  assumes "eta_loop F R eta g = Some y"
  shows "\<not> nan_gt (np_mean (map (\<lambda>x. \<bar>x\<bar> > 2.5) (fst y))) 0.05"
proof (rule eta_loop.raw_induct
    [where P = "\<lambda>F R eta g y. \<not> nan_gt (np_mean (map (\<lambda>x. \<bar>x\<bar> > 2.5) (fst y))) 0.05",
      OF _ assms])
  fix loop :: "np_float \<Rightarrow> 'a np_random \<Rightarrow> real list \<Rightarrow> 'a \<Rightarrow> (real list \<times> 'a) option"
  fix F R eta g y
  assume IH: "\<And>F R eta g y. loop F R eta g = Some y \<Longrightarrow>
     \<not> nan_gt (np_mean (map (\<lambda>x. \<bar>x\<bar> > 2.5) (fst y))) 0.05"
  assume body: "(if nan_gt (np_mean (map (\<lambda>x. \<bar>x\<bar> > 2.5) eta)) 0.05 then
        (let mask = map (\<lambda>x. \<bar>x\<bar> > 2.5) eta in
         case normal R 0 2.5 (length (filter id mask)) g of
           (vs, g1) \<Rightarrow> loop F R (assign_masked eta mask (map (f32 F) vs)) g1)
      else Some (eta, g)) = Some y"
  show "\<not> nan_gt (np_mean (map (\<lambda>x. \<bar>x\<bar> > 2.5) (fst y))) 0.05"
  proof (cases "nan_gt (np_mean (map (\<lambda>x. \<bar>x\<bar> > 2.5) eta)) 0.05")
    case True
    obtain vs g1 where
      d: "normal R 0 2.5 (length (filter id (map (\<lambda>x. \<bar>x\<bar> > 2.5) eta))) g = (vs, g1)"
      by (cases "normal R 0 2.5 (length (filter id (map (\<lambda>x. \<bar>x\<bar> > 2.5) eta))) g")
    from body True d
    have "loop F R (assign_masked eta (map (\<lambda>x. \<bar>x\<bar> > 2.5) eta) (map (f32 F) vs)) g1 = Some y"
      by (simp add: Let_def)
    from IH [OF this] show ?thesis .
  next
    case False
    with body show ?thesis by auto
  qed
qed

lemma eta_loop_exit:
  "eta_loop F R eta g = Some (eta', g') \<Longrightarrow>
     \<not> nan_gt (np_mean (map (\<lambda>x. \<bar>x\<bar> > 2.5) eta')) 0.05"
  using eta_loop_exit_aux [of F R eta g "(eta', g')"] by simp

lemma no_outlier_zeros: "filter id (map (\<lambda>x::real. \<bar>x\<bar> > 2.5) (replicate n 0)) = []"
  by (induction n) auto

lemma loop_test_zeros: "\<not> nan_gt (np_mean (map (\<lambda>x. \<bar>x\<bar> > 2.5) (zeros_like p))) 0.05"
  by (simp add: np_mean_def zeros_like_def no_outlier_zeros)

lemma eta_loop_zeros: "eta_loop F R (zeros_like p) g = Some (zeros_like p, g)"
  by (subst eta_loop.simps) (simp only: loop_test_zeros if_False)

lemma stack_axis1_four:
  assumes "length a = n" "length b = n" "length c = n" "length d = n"
  shows "stack_axis1 [a, b, c, d] = map (\<lambda>i. [a ! i, b ! i, c ! i, d ! i]) [0..<n]"
proof -
  have len: "\<And>i. i < length [a, b, c, d] \<Longrightarrow> length ([a, b, c, d] ! i) = n"
    using assms by (simp add: nth_Cons split: nat.splits)
  have "transpose [a, b, c, d] =
          map (\<lambda>i. map (\<lambda>j. [a, b, c, d] ! j ! i) [0..<length [a, b, c, d]]) [0..<n]"
    by (rule transpose_rectangle) (use len in simp_all)
  moreover have "[0..<length [a, b, c, d]] = [0, 1, 2, 3]"
    by (simp add: upt_rec)
  ultimately show ?thesis
    by (simp add: stack_axis1_def)
qed

lemma get_data_rows:
  assumes "get_data F R n lo_p hi_p lo_m hi_m cart g = Some (vec, m, g')"
  shows "\<exists>p64 m64 phi64 eta g1 g2 g3.
           uniform R lo_p hi_p n g = (p64, g1) \<and> uniform R lo_m hi_m n g1 = (m64, g2) \<and>
           uniform R (- pi) pi n g2 = (phi64, g3) \<and>
           eta_loop F R (zeros_like p64) g3 = Some (eta, g') \<and>
           length p64 = n \<and> length m64 = n \<and> length phi64 = n \<and> length eta = n \<and>
           m = map (f32 F) m64 \<and>
           vec = map (\<lambda>i. sample_row F cart (f32 F (p64 ! i)) (f32 F (m64 ! i))
                             (f32 F (phi64 ! i)) (eta ! i)) [0..<n]"
proof -
  obtain p64 g1 where p: "uniform R lo_p hi_p n g = (p64, g1)"
    by (cases "uniform R lo_p hi_p n g")
  obtain m64 g2 where m0: "uniform R lo_m hi_m n g1 = (m64, g2)"
    by (cases "uniform R lo_m hi_m n g1")
  obtain phi64 g3 where phi: "uniform R (- pi) pi n g2 = (phi64, g3)"
    by (cases "uniform R (- pi) pi n g2")
  have zl: "zeros_like (map (f32 F) p64) = zeros_like p64"
    by (simp add: zeros_like_def)
  from assms p m0 phi obtain eta g4 where loop: "eta_loop F R (zeros_like p64) g3 = Some (eta, g4)"
    by (cases "eta_loop F R (zeros_like p64) g3") (auto simp: get_data_def Let_def zl)
  have lp: "length p64 = n" and lm: "length m64 = n" and lphi: "length phi64 = n"
    using p m0 phi by (auto dest: length_uniform)
  have leta: "length eta = n"
    using eta_loop_length [OF loop] lp by (simp add: zeros_like_def)
  have m: "m = map (f32 F) m64" and g': "g' = g4"
    using assms p m0 phi loop by (auto simp: get_data_def Let_def zl split: if_splits)
  let ?p = "map (f32 F) p64" and ?m = "map (f32 F) m64" and ?phi = "map (f32 F) phi64"
  let ?e = "map2 (\<lambda>a b. fsqrt F (fadd F (fmul F a a) (fmul F b b))) ?p ?m"
  let ?theta = "map (\<lambda>x. fmul F 2 (np_arctan F (np_exp F (- x)))) eta"
  let ?pt = "map2 (\<lambda>a t. fmul F a (np_cos F t)) ?p ?theta"
  have vec: "vec = (if cart
      then stack_axis1
             [?e, map2 (\<lambda>a f. fmul F a (np_cos F f)) ?pt ?phi,
              map2 (\<lambda>a f. fmul F a (np_sin F f)) ?pt ?phi,
              map2 (\<lambda>a t. fmul F a (np_sin F t)) ?p ?theta]
      else stack_axis1 [?e, ?pt, eta, ?phi])"
    using assms p m0 phi loop by (auto simp: get_data_def Let_def zl split: if_splits)
  have rows: "vec = map (\<lambda>i. sample_row F cart (f32 F (p64 ! i)) (f32 F (m64 ! i))
                             (f32 F (phi64 ! i)) (eta ! i)) [0..<n]"
  proof (cases cart)
    case True
    with vec show ?thesis
      using lp lm lphi leta
      by (simp add: stack_axis1_four [where n = n] sample_row_def Let_def)
  next
    case False
    with vec show ?thesis
      using lp lm lphi leta
      by (simp add: stack_axis1_four [where n = n] sample_row_def Let_def)
  qed
  show ?thesis
    using p m0 phi loop lp lm lphi leta rows m g' by blast
qed

lemma get_data_returns:
  "\<exists>vec m g'. get_data F R n lo_p hi_p lo_m hi_m cart g = Some (vec, m, g')"
proof -
  have "zeros_like (map (f32 F) p64) = zeros_like p64" for p64
    by (simp add: zeros_like_def)
  then show ?thesis
    by (simp add: get_data_def eta_loop_zeros Let_def split: prod.splits)
qed

lemma get_data_zero_eta:
  "get_data F R n lo_p hi_p lo_m hi_m cart g =
     (case uniform R lo_p hi_p n g of (p64, g1) \<Rightarrow>
      case uniform R lo_m hi_m n g1 of (m64, g2) \<Rightarrow>
      case uniform R (- pi) pi n g2 of (phi64, g3) \<Rightarrow>
        Some (map (\<lambda>i. sample_row F cart (f32 F (p64 ! i)) (f32 F (m64 ! i))
                          (f32 F (phi64 ! i)) 0) [0..<n],
              map (f32 F) m64, g3))"
proof -
  obtain vec m g' where run: "get_data F R n lo_p hi_p lo_m hi_m cart g = Some (vec, m, g')"
    using get_data_returns [of F R n lo_p hi_p lo_m hi_m cart g] by auto
  from get_data_rows [OF run] obtain p64 m64 phi64 eta g1 g2 g3 where
    p: "uniform R lo_p hi_p n g = (p64, g1)" and m: "uniform R lo_m hi_m n g1 = (m64, g2)" and
    phi: "uniform R (- pi) pi n g2 = (phi64, g3)" and
    loop: "eta_loop F R (zeros_like p64) g3 = Some (eta, g')" and
    len: "length p64 = n" and masses: "m = map (f32 F) m64" and
    vec: "vec = map (\<lambda>i. sample_row F cart (f32 F (p64 ! i)) (f32 F (m64 ! i))
                             (f32 F (phi64 ! i)) (eta ! i)) [0..<n]"
    by blast
  from loop have "eta = zeros_like p64" and g': "g' = g3"
    by (simp_all add: eta_loop_zeros)
  with len have eta: "eta = replicate n 0"
    by (simp add: zeros_like_def)
  have "vec = map (\<lambda>i. sample_row F cart (f32 F (p64 ! i)) (f32 F (m64 ! i))
                             (f32 F (phi64 ! i)) 0) [0..<n]"
    unfolding vec eta by (rule map_cong [OF refl]) simp
  with run p m phi g' masses show ?thesis
    by simp
qed

lemma sample_row_exact:
  "sample_row exact_arith cart p m phi 0 =
     (if cart then [sqrt (p * p + m * m), 0, 0, p] else [sqrt (p * p + m * m), 0, 0, phi])"
  by (simp add: sample_row_def exact_arith_def fmul_def fadd_def fsqrt_def arctan_one)

lemma theta_binary32:
  "fmul binary32 2 (np_arctan binary32 (np_exp binary32 (- 0))) = 13176795 / 8388608"
proof -
  have ex: "np_exp binary32 (- 0) = 1"
    by (simp add: binary32_def round32_one)
  have at: "np_arctan binary32 1 = 13176795 / 16777216"
    by (simp add: binary32_def arctan_one round32_quarter_pi)
  have "f32 binary32 = round32"
    by (simp add: binary32_def)
  then have "fmul binary32 2 (13176795 / 16777216) = 13176795 / 8388608"
    by (simp only: fmul_def round32_theta)
  then show ?thesis
    by (simp only: ex at)
qed

lemma sample_row_binary32:
  "sample_row binary32 True (round32 x) m phi 0 =
     [fsqrt binary32 (fadd binary32 (fmul binary32 (round32 x) (round32 x)) (fmul binary32 m m)),
      round32 (round32 (round32 x * round32 (cos (13176795 / 8388608))) * round32 (cos phi)),
      round32 (round32 (round32 x * round32 (cos (13176795 / 8388608))) * round32 (sin phi)),
      round32 x]"
proof -
  have "np_sin binary32 (13176795 / 8388608) = 1"
    by (simp add: binary32_def round32_sin_theta)
  then have pz: "fmul binary32 (round32 x) (np_sin binary32 (13176795 / 8388608)) = round32 x"
    by (simp add: fmul_def binary32_def round32_idem)
  have b: "f32 binary32 = round32" "np_cos binary32 = (\<lambda>x. round32 (cos x))"
    "np_sin binary32 = (\<lambda>x. round32 (sin x))"
    by (simp_all add: binary32_def)
  show ?thesis
    unfolding sample_row_def Let_def theta_binary32 pz
    by (simp add: fmul_def b)
qed

text \<open>
  Claim C2, amended. The rejection loop of \<open>get_data\<close> never iterates: on the array of
  zeros it starts from, its condition is false at the first test, so the loop returns the
  zeros and the generator it was given. Hence \<open>get_data\<close> returns for every input, and
  every row of the batch is the row of pseudorapidity 0. In real arithmetic that row is
  \<open>(e, 0, 0, p)\<close> in the Cartesian basis and \<open>(e, 0, 0, phi)\<close> in the other one. In
  binary32 the Cartesian row still has \<open>pz = p\<close>, but \<open>px\<close> and \<open>py\<close> are the products of
  \<open>p\<close>, of the cosine of the rounded polar angle, which is negative, and of the cosine
  and sine of \<open>phi\<close>: they are zero only up to rounding.
\<close>

theorem get_data_loop_runs_zero_times:
  "\<not> nan_gt (np_mean (map (\<lambda>x. \<bar>x\<bar> > 2.5) (zeros_like p0))) 0.05 \<and>
   eta_loop F R (zeros_like p0) g0 = Some (zeros_like p0, g0) \<and>
   get_data F R n lo_p hi_p lo_m hi_m cart g =
     (case uniform R lo_p hi_p n g of (p64, g1) \<Rightarrow>
      case uniform R lo_m hi_m n g1 of (m64, g2) \<Rightarrow>
      case uniform R (- pi) pi n g2 of (phi64, g3) \<Rightarrow>
        Some (map (\<lambda>i. sample_row F cart (f32 F (p64 ! i)) (f32 F (m64 ! i))
                          (f32 F (phi64 ! i)) 0) [0..<n],
              map (f32 F) m64, g3)) \<and>
   sample_row exact_arith cart p m phi 0 =
     (if cart then [sqrt (p * p + m * m), 0, 0, p] else [sqrt (p * p + m * m), 0, 0, phi]) \<and>
   sample_row binary32 True (round32 x) m phi 0 =
     [fsqrt binary32 (fadd binary32 (fmul binary32 (round32 x) (round32 x)) (fmul binary32 m m)),
      round32 (round32 (round32 x * round32 (cos (13176795 / 8388608))) * round32 (cos phi)),
      round32 (round32 (round32 x * round32 (cos (13176795 / 8388608))) * round32 (sin phi)),
      round32 x] \<and>
   round32 (cos (13176795 / 8388608)) \<le> - (1 / 67108864)"
  by (intro conjI loop_test_zeros eta_loop_zeros get_data_zero_eta sample_row_exact
      sample_row_binary32 round32_cos_theta)

lemma uniform_one:
  "uniform R low high 1 g = (case uniform1 R low high g of (a, g1) \<Rightarrow> ([a], g1))"
  by (simp add: uniform_def split: prod.splits)

lemma upt_one: "[0..<1] = [0]"
  by simp

lemma px_negative:
  "round32 (round32 (round32 60 * round32 (cos (13176795 / 8388608))) * round32 (cos (round32 0)))
     \<le> - (1 / 67108864)"
proof -
  let ?c = "round32 (cos (13176795 / 8388608))"
  have c: "?c \<le> - (1 / 67108864)"
    by (rule round32_cos_theta)
  then have "60 * ?c \<le> - (1 / 67108864)"
    by simp
  then have "round32 (60 * ?c) \<le> round32 (- (1 / 67108864))"
    by (rule round32_mono)
  then have pt: "round32 (60 * ?c) \<le> - (1 / 67108864)"
    by (simp only: round32_small)
  then have "round32 (round32 (60 * ?c)) \<le> round32 (- (1 / 67108864))"
    by (rule round32_mono)
  then have "round32 (round32 (60 * ?c) * 1) \<le> - (1 / 67108864)"
    by (simp only: round32_small mult_1_right)
  then show ?thesis
    by (simp only: round32_sixty round32_zero cos_zero round32_one)
qed

text \<open>
  Claim C2 as stated fails in binary32: the call
  \<^verbatim>\<open>get_data(1, 0, 200, 0.1, 100)\<close> on the counter generator in state 3 draws
  \<open>p = 60\<close> and \<open>phi = 0\<close>, and the \<open>px\<close> of its one sample is negative, not zero.
\<close>

theorem get_data_px_not_zero:
  "(case get_data binary32 counter_random 1 0 200 0.1 100 True 3 of
      None \<Rightarrow> False
    | Some (vec, m, g') \<Rightarrow> vec ! 0 ! 1 \<le> - (1 / 67108864) \<and> vec ! 0 ! 1 \<noteq> 0)"
proof -
  have p: "f32 binary32 (0 + (200 - 0) * unit_draw 3) = round32 60"
    by (simp add: binary32_def unit_draw_def)
  have phi: "f32 binary32 (- pi + (pi - - pi) * unit_draw (Suc (Suc 3))) = round32 0"
    by (simp add: binary32_def unit_draw_def)
  have row: "sample_row binary32 True (round32 60) mm (round32 0) 0 ! 1 \<le> - (1 / 67108864)" for mm
    using px_negative by (simp only: sample_row_binary32) simp
  have "get_data binary32 counter_random 1 0 200 0.1 100 True 3 =
          Some ([sample_row binary32 True (round32 60)
                   (f32 binary32 (0.1 + (100 - 0.1) * unit_draw (Suc 3))) (round32 0) 0],
                [f32 binary32 (0.1 + (100 - 0.1) * unit_draw (Suc 3))], Suc (Suc (Suc 3)))"
    by (simp only: get_data_zero_eta uniform_one counter_random_def np_random.simps prod.case
        upt_one list.map nth_Cons_0 p phi)
  then show ?thesis
    using row [of "f32 binary32 (0.1 + (100 - 0.1) * unit_draw (Suc 3))"] by simp
qed

subsection \<open>The sampler on the counter generator\<close>

lemma draw_n_two:
  "draw_n d 2 g = (case d g of (a, g1) \<Rightarrow> case d g1 of (b, g2) \<Rightarrow> ([a, b], g2))"
  by (simp add: numeral_2_eq_2 split: prod.splits)

lemma upt_two: "[0..<2] = [0, Suc 0]"
  by (simp add: numeral_2_eq_2)

lemma sqrt_first_row: "sqrt (252004 / 625) = 502 / 25"
  by (rule real_sqrt_unique) (simp_all add: power2_eq_square)

lemma f32_exact: "f32 exact_arith x = x"
  by (simp add: exact_arith_def)

lemma get_data_counter_two:
  "get_data exact_arith counter_random 2 0 200 0.1 100 cart 0 =
     Some ([[502 / 25, 0, 0, if cart then 0 else - (pi / 5)],
            [sqrt (13042049 / 10000), 0, 0, if cart then 20 else 0]],
           [502 / 25, 3007 / 100], 6)"
  by (simp add: get_data_zero_eta sample_row_exact f32_exact uniform_def draw_n_two upt_two
      counter_random_def unit_draw_def sqrt_first_row)

lemma sample_row_eta: "sample_row F False p m phi eta ! 2 = eta"
  by (simp add: sample_row_def Let_def)

text \<open>
  Claim C1 says that the pseudorapidities of a batch are drawn from a normal distribution in
  the rejection loop. The code never draws them: for the call
  \<^verbatim>\<open>get_data(2, 0, 200, 0.1, 100, cartesian=False)\<close> on the counter generator the third
  column of the batch, the pseudorapidity, is 0 in both rows, the generator has advanced by
  the six uniform draws only, and the batch is the same whatever \<open>normal1\<close> would return,
  in every number format; in real arithmetic the batch is the one given.
\<close>

theorem get_data_eta_never_drawn:
  "get_data exact_arith counter_random 2 0 200 0.1 100 False 0 =
     Some ([[502 / 25, 0, 0, - (pi / 5)], [sqrt (13042049 / 10000), 0, 0, 0]],
           [502 / 25, 3007 / 100], 6) \<and>
   (\<forall>f. get_data F (counter_random\<lparr>normal1 := f\<rparr>) 2 0 200 0.1 100 False 0 =
        get_data F counter_random 2 0 200 0.1 100 False 0) \<and>
   (\<exists>vec m. get_data F counter_random 2 0 200 0.1 100 False 0 = Some (vec, m, 6) \<and>
            map (\<lambda>row. row ! 2) vec = [0, 0])"
proof (intro conjI)
  show "get_data exact_arith counter_random 2 0 200 0.1 100 False 0 =
     Some ([[502 / 25, 0, 0, - (pi / 5)], [sqrt (13042049 / 10000), 0, 0, 0]],
           [502 / 25, 3007 / 100], 6)"
    using get_data_counter_two [of False] by simp
  show "\<forall>f. get_data F (counter_random\<lparr>normal1 := f\<rparr>) 2 0 200 0.1 100 False 0 =
        get_data F counter_random 2 0 200 0.1 100 False 0"
    by (simp add: get_data_zero_eta uniform_def counter_random_def)
  show "\<exists>vec m. get_data F counter_random 2 0 200 0.1 100 False 0 = Some (vec, m, 6) \<and>
            map (\<lambda>row. row ! 2) vec = [0, 0]"
    by (simp add: get_data_zero_eta uniform_def draw_n_two upt_two counter_random_def
        sample_row_eta)
qed

subsection \<open>Angular coverage\<close>

lemma np_mean_bound:
  assumes "\<not> nan_gt (np_mean (map P xs)) c" and "0 \<le> c"
  shows "real (length (filter P xs)) \<le> c * real (length xs)"
proof (cases "xs = []")
  case True
  then show ?thesis by simp
next
  case False
  have "filter id (map P xs) = map P (filter P xs)"
    by (induction xs) auto
  with assms False have "real (length (filter P xs)) / real (length xs) \<le> c"
    by (simp add: np_mean_def)
  with False show ?thesis
    by (simp add: pos_divide_le_eq)
qed

text \<open>
  Claim C5. In every batch \<open>get_data\<close> returns, in either basis, at most 5% of the samples
  have a pseudorapidity of absolute value above 2.5. The pseudorapidity of a sample is its
  entry of the array \<open>eta\<close>: the array that the loop of that call returns from the zeros,
  and from which, with the three arrays drawn before, every row of the batch is derived;
  in the basis \<open>(e, pt, eta, phi)\<close> it is the third column of the batch. The call always
  returns, and the bound holds whenever the loop returns, from any starting array.
\<close>

theorem get_data_eta_coverage:
  "(eta_loop F R eta0 g0 = Some (eta1, g1) \<longrightarrow>
      real (length (filter (\<lambda>x. \<bar>x\<bar> > 2.5) eta1)) \<le> 0.05 * real (length eta1)) \<and>
   (\<exists>vec m g'. get_data F R n lo_p hi_p lo_m hi_m cart g = Some (vec, m, g')) \<and>
   (get_data F R n lo_p hi_p lo_m hi_m cart g = Some (vec, m, g') \<longrightarrow>
      (\<exists>p64 m64 phi64 eta h1 h2 h3.
         uniform R lo_p hi_p n g = (p64, h1) \<and> uniform R lo_m hi_m n h1 = (m64, h2) \<and>
         uniform R (- pi) pi n h2 = (phi64, h3) \<and>
         eta_loop F R (zeros_like (map (f32 F) p64)) h3 = Some (eta, g') \<and>
         length eta = n \<and> m = map (f32 F) m64 \<and>
         vec = map (\<lambda>i. sample_row F cart (f32 F (p64 ! i)) (f32 F (m64 ! i))
                           (f32 F (phi64 ! i)) (eta ! i)) [0..<n] \<and>
         real (length (filter (\<lambda>x. \<bar>x\<bar> > 2.5) eta)) \<le> 0.05 * real n \<and>
         (cart \<or> map (\<lambda>row. row ! 2) vec = eta)))"
proof (intro conjI impI)
  assume "eta_loop F R eta0 g0 = Some (eta1, g1)"
  from eta_loop_exit [OF this]
  show "real (length (filter (\<lambda>x. \<bar>x\<bar> > 2.5) eta1)) \<le> 0.05 * real (length eta1)"
    by (rule np_mean_bound) simp
next
  show "\<exists>vec m g'. get_data F R n lo_p hi_p lo_m hi_m cart g = Some (vec, m, g')"
    by (rule get_data_returns)
next
  assume run: "get_data F R n lo_p hi_p lo_m hi_m cart g = Some (vec, m, g')"
  from get_data_rows [OF run] obtain p64 m64 phi64 eta h1 h2 h3 where
    draws: "uniform R lo_p hi_p n g = (p64, h1)" "uniform R lo_m hi_m n h1 = (m64, h2)"
      "uniform R (- pi) pi n h2 = (phi64, h3)" and
    loop: "eta_loop F R (zeros_like p64) h3 = Some (eta, g')" and
    len: "length p64 = n" "length m64 = n" "length phi64 = n" "length eta = n" and
    m: "m = map (f32 F) m64" and
    vec: "vec = map (\<lambda>i. sample_row F cart (f32 F (p64 ! i)) (f32 F (m64 ! i))
                             (f32 F (phi64 ! i)) (eta ! i)) [0..<n]"
    by blast
  have loop': "eta_loop F R (zeros_like (map (f32 F) p64)) h3 = Some (eta, g')"
    using loop by (simp add: zeros_like_def)
  have bound: "real (length (filter (\<lambda>x. \<bar>x\<bar> > 2.5) eta)) \<le> 0.05 * real n"
    using np_mean_bound [OF eta_loop_exit [OF loop]] len by simp
  have col: "map (\<lambda>row. row ! 2) vec = eta" if "\<not> cart"
    using that len by (simp add: vec list_eq_iff_nth_eq sample_row_eta)
  have last: "cart \<or> map (\<lambda>row. row ! 2) vec = eta"
    using col by blast
  show "\<exists>p64 m64 phi64 eta h1 h2 h3.
         uniform R lo_p hi_p n g = (p64, h1) \<and> uniform R lo_m hi_m n h1 = (m64, h2) \<and>
         uniform R (- pi) pi n h2 = (phi64, h3) \<and>
         eta_loop F R (zeros_like (map (f32 F) p64)) h3 = Some (eta, g') \<and>
         length eta = n \<and> m = map (f32 F) m64 \<and>
         vec = map (\<lambda>i. sample_row F cart (f32 F (p64 ! i)) (f32 F (m64 ! i))
                           (f32 F (phi64 ! i)) (eta ! i)) [0..<n] \<and>
         real (length (filter (\<lambda>x. \<bar>x\<bar> > 2.5) eta)) \<le> 0.05 * real n \<and>
         (cart \<or> map (\<lambda>row. row ! 2) vec = eta)"
    by (rule exI [of _ p64], rule exI [of _ m64], rule exI [of _ phi64], rule exI [of _ eta],
        rule exI [of _ h1], rule exI [of _ h2], rule exI [of _ h3])
      (intro conjI draws loop' len(4) m vec bound last)
qed

lemma eta_loop_counter_one: "eta_loop exact_arith counter_random [3] 5 = Some ([0], 6)"
  apply (subst eta_loop.simps)
  apply (simp add: np_mean_def normal_def counter_random_def unit_draw_def exact_arith_def)
  apply (subst eta_loop.simps)
  apply (simp add: np_mean_def)
  done

theorem get_data_eta_coverage_witness:
  "eta_loop exact_arith counter_random [3] 5 = Some ([0], 6) \<and>
   real (length (filter (\<lambda>x. \<bar>x\<bar> > 2.5) [0::real])) \<le> 0.05 * real (length [0::real]) \<and>
   get_data exact_arith counter_random 2 0 200 0.1 100 True 0 =
     Some ([[502 / 25, 0, 0, 0], [sqrt (13042049 / 10000), 0, 0, 20]],
           [502 / 25, 3007 / 100], 6) \<and>
   (\<exists>p64 m64 phi64 eta h1 h2 h3.
      uniform counter_random 0 200 2 0 = (p64, h1) \<and>
      uniform counter_random 0.1 100 2 h1 = (m64, h2) \<and>
      uniform counter_random (- pi) pi 2 h2 = (phi64, h3) \<and>
      eta_loop exact_arith counter_random (zeros_like (map (f32 exact_arith) p64)) h3 =
        Some (eta, 6) \<and>
      length eta = 2 \<and> [502 / 25, 3007 / 100] = map (f32 exact_arith) m64 \<and>
      [[502 / 25, 0, 0, 0], [sqrt (13042049 / 10000), 0, 0, 20]] =
        map (\<lambda>i. sample_row exact_arith True (f32 exact_arith (p64 ! i))
                    (f32 exact_arith (m64 ! i)) (f32 exact_arith (phi64 ! i)) (eta ! i))
          [0..<2] \<and>
      real (length (filter (\<lambda>x. \<bar>x\<bar> > 2.5) eta)) \<le> 0.05 * real (2::nat) \<and>
      (True \<or> map (\<lambda>row. row ! 2) [[502 / 25, 0, 0, 0], [sqrt (13042049 / 10000), 0, 0, 20]] =
         eta))"
proof -
  have run: "get_data exact_arith counter_random 2 0 200 0.1 100 True 0 =
     Some ([[502 / 25, 0, 0, 0], [sqrt (13042049 / 10000), 0, 0, 20]],
           [502 / 25, 3007 / 100], 6)"
    using get_data_counter_two [of True] by simp
  note coverage = get_data_eta_coverage [where F = exact_arith and R = counter_random
      and ?eta0.0 = "[3]" and ?g0.0 = 5 and ?eta1.0 = "[0]" and ?g1.0 = 6 and n = 2
      and lo_p = 0 and hi_p = 200 and lo_m = "0.1" and hi_m = 100 and cart = True and g = 0
      and vec = "[[502 / 25, 0, 0, 0], [sqrt (13042049 / 10000), 0, 0, 20]]"
      and m = "[502 / 25, 3007 / 100]" and g' = 6]
  note coverage [THEN conjunct1, THEN mp, OF eta_loop_counter_one]
    coverage [THEN conjunct2, THEN conjunct2, THEN mp, OF run]
  with eta_loop_counter_one run show ?thesis
    by (intro conjI)
qed

subsection \<open>The relativistic invariant\<close>

lemma invariant_row:
  fixes p m t f :: real
  shows "(sqrt (p * p + m * m))\<^sup>2 -
           ((p * cos t * cos f)\<^sup>2 + (p * cos t * sin f)\<^sup>2 + (p * sin t)\<^sup>2) = m\<^sup>2"
    and "sqrt ((p * cos t * cos f)\<^sup>2 + (p * cos t * sin f)\<^sup>2 + (p * sin t)\<^sup>2)
           \<le> sqrt (p * p + m * m)"
proof -
  have "(p * cos t * cos f)\<^sup>2 + (p * cos t * sin f)\<^sup>2 =
          (p * cos t)\<^sup>2 * ((cos f)\<^sup>2 + (sin f)\<^sup>2)"
    by (simp only: power_mult_distrib distrib_left)
  then have pt: "(p * cos t * cos f)\<^sup>2 + (p * cos t * sin f)\<^sup>2 = (p * cos t)\<^sup>2"
    by simp
  have "(p * cos t)\<^sup>2 + (p * sin t)\<^sup>2 = p\<^sup>2 * ((cos t)\<^sup>2 + (sin t)\<^sup>2)"
    by (simp only: power_mult_distrib distrib_left)
  then have p2: "(p * cos t)\<^sup>2 + (p * sin t)\<^sup>2 = p\<^sup>2"
    by simp
  have mom: "(p * cos t * cos f)\<^sup>2 + (p * cos t * sin f)\<^sup>2 + (p * sin t)\<^sup>2 = p\<^sup>2"
    using pt p2 by simp
  have e2: "(sqrt (p * p + m * m))\<^sup>2 = p\<^sup>2 + m\<^sup>2"
    by (simp add: power2_eq_square)
  show "(sqrt (p * p + m * m))\<^sup>2 -
           ((p * cos t * cos f)\<^sup>2 + (p * cos t * sin f)\<^sup>2 + (p * sin t)\<^sup>2) = m\<^sup>2"
    using mom e2 by simp
  show "sqrt ((p * cos t * cos f)\<^sup>2 + (p * cos t * sin f)\<^sup>2 + (p * sin t)\<^sup>2)
           \<le> sqrt (p * p + m * m)"
    unfolding mom by (rule real_sqrt_le_mono) (simp add: power2_eq_square)
qed

lemma sample_row_exact_cartesian:
  "sample_row exact_arith True p m phi eta =
     [sqrt (p * p + m * m),
      p * cos (2 * arctan (exp (- eta))) * cos phi,
      p * cos (2 * arctan (exp (- eta))) * sin phi,
      p * sin (2 * arctan (exp (- eta)))]"
  by (simp add: sample_row_def exact_arith_def fmul_def fadd_def fsqrt_def Let_def)

text \<open>
  Claim C3. In real arithmetic every call of \<open>get_data\<close> in the Cartesian basis returns a
  batch of \<open>n\<close> rows \<open>(e, px, py, pz)\<close> and \<open>n\<close> masses such that in each row
  \<open>e\<^sup>2 - (px\<^sup>2 + py\<^sup>2 + pz\<^sup>2)\<close> is the square of the paired mass, and \<open>e\<close> is at least
  the magnitude of the momentum. This holds for all bounds, and for whatever
  pseudorapidities the loop returns.
\<close>

theorem get_data_relativistic_invariant:
  "\<exists>vec m g'. get_data exact_arith R n lo_p hi_p lo_m hi_m True g = Some (vec, m, g') \<and>
     length vec = n \<and> length m = n \<and>
     (\<forall>i<n. (vec ! i ! 0)\<^sup>2 - ((vec ! i ! 1)\<^sup>2 + (vec ! i ! 2)\<^sup>2 + (vec ! i ! 3)\<^sup>2) = (m ! i)\<^sup>2 \<and>
            sqrt ((vec ! i ! 1)\<^sup>2 + (vec ! i ! 2)\<^sup>2 + (vec ! i ! 3)\<^sup>2) \<le> vec ! i ! 0)"
proof -
  obtain vec m g' where run:
    "get_data exact_arith R n lo_p hi_p lo_m hi_m True g = Some (vec, m, g')"
    using get_data_returns [of exact_arith R n lo_p hi_p lo_m hi_m True g] by auto
  from get_data_rows [OF run] obtain p m64 phi eta where
    lm: "length m64 = n" and m: "m = map (f32 exact_arith) m64" and
    vec: "vec = map (\<lambda>i. sample_row exact_arith True (f32 exact_arith (p ! i))
                          (f32 exact_arith (m64 ! i)) (f32 exact_arith (phi ! i)) (eta ! i))
                 [0..<n]"
    by blast
  have mm: "m = m64"
    by (simp add: m exact_arith_def)
  have "(vec ! i ! 0)\<^sup>2 - ((vec ! i ! 1)\<^sup>2 + (vec ! i ! 2)\<^sup>2 + (vec ! i ! 3)\<^sup>2) = (m ! i)\<^sup>2 \<and>
        sqrt ((vec ! i ! 1)\<^sup>2 + (vec ! i ! 2)\<^sup>2 + (vec ! i ! 3)\<^sup>2) \<le> vec ! i ! 0"
    if "i < n" for i
    using that invariant_row [where p = "p ! i" and m = "m ! i"
        and t = "2 * arctan (exp (- eta ! i))" and f = "phi ! i"]
    by (simp add: vec mm f32_exact sample_row_exact_cartesian numeral_3_eq_3 numeral_2_eq_2)
  moreover have "length vec = n"
    by (simp add: vec)
  ultimately show ?thesis
    using run lm mm by blast
qed

theorem get_data_relativistic_invariant_witness:
  "\<exists>vec m g'. get_data exact_arith counter_random 2 0 200 0.1 100 True 0 = Some (vec, m, g') \<and>
     length vec = 2 \<and> length m = 2 \<and>
     (vec ! 1 ! 0)\<^sup>2 - ((vec ! 1 ! 1)\<^sup>2 + (vec ! 1 ! 2)\<^sup>2 + (vec ! 1 ! 3)\<^sup>2) = (m ! 1)\<^sup>2 \<and>
     sqrt ((vec ! 1 ! 1)\<^sup>2 + (vec ! 1 ! 2)\<^sup>2 + (vec ! 1 ! 3)\<^sup>2) \<le> vec ! 1 ! 0"
proof -
  from get_data_relativistic_invariant [of counter_random 2 0 200 "0.1" 100 0]
  obtain vec m g' where
    "get_data exact_arith counter_random 2 0 200 0.1 100 True 0 = Some (vec, m, g')"
    "length vec = 2" "length m = 2"
    "\<forall>i<2. (vec ! i ! 0)\<^sup>2 - ((vec ! i ! 1)\<^sup>2 + (vec ! i ! 2)\<^sup>2 + (vec ! i ! 3)\<^sup>2) = (m ! i)\<^sup>2 \<and>
            sqrt ((vec ! i ! 1)\<^sup>2 + (vec ! i ! 2)\<^sup>2 + (vec ! i ! 3)\<^sup>2) \<le> vec ! i ! 0"
    by blast
  moreover have "(1::nat) < 2" by simp
  ultimately show ?thesis by blast
qed

subsection \<open>Determinism and shape\<close>

lemma length_sample_row: "length (sample_row F cart p m phi eta) = 4"
  by (simp add: sample_row_def Let_def)

text \<open>
  Claim C9. A batch is a function of the numbers drawn: two runs of \<open>get_data\<close> on the
  same arguments whose generators deliver the same three uniform arrays, in particular two
  runs from the same state of one generator, return the same batch and the same masses.
  For every \<open>n\<close> the batch has \<open>n\<close> rows of four entries, and there are \<open>n\<close> masses.
\<close>

theorem get_data_deterministic:
  assumes "uniform R1 lo_p hi_p n g1 = (p, h1)" and "uniform R2 lo_p hi_p n g2 = (p, k1)"
    and "uniform R1 lo_m hi_m n h1 = (m, h2)" and "uniform R2 lo_m hi_m n k1 = (m, k2)"
    and "uniform R1 (- pi) pi n h2 = (phi, h3)" and "uniform R2 (- pi) pi n k2 = (phi, k3)"
  shows "\<exists>vec. get_data F R1 n lo_p hi_p lo_m hi_m cart g1 = Some (vec, map (f32 F) m, h3) \<and>
               get_data F R2 n lo_p hi_p lo_m hi_m cart g2 = Some (vec, map (f32 F) m, k3) \<and>
               length vec = n \<and> list_all (\<lambda>row. length row = 4) vec \<and>
               length (map (f32 F) m) = n"
proof -
  let ?vec = "map (\<lambda>i. sample_row F cart (f32 F (p ! i)) (f32 F (m ! i)) (f32 F (phi ! i)) 0)
                [0..<n]"
  have "get_data F R1 n lo_p hi_p lo_m hi_m cart g1 = Some (?vec, map (f32 F) m, h3)"
    using assms by (simp add: get_data_zero_eta)
  moreover have "get_data F R2 n lo_p hi_p lo_m hi_m cart g2 = Some (?vec, map (f32 F) m, k3)"
    using assms by (simp add: get_data_zero_eta)
  moreover have "length ?vec = n"
    by simp
  moreover have "list_all (\<lambda>row. length row = 4) ?vec"
    by (simp add: list_all_iff length_sample_row)
  moreover have "length (map (f32 F) m) = n"
    using assms(3) by (simp add: length_uniform)
  ultimately show ?thesis
    by blast
qed

lemma uniform_counter_two:
  "uniform counter_random lo hi 2 k =
     ([lo + (hi - lo) * unit_draw k, lo + (hi - lo) * unit_draw (Suc k)], Suc (Suc k))"
  by (simp add: uniform_def draw_n_two counter_random_def)

theorem get_data_deterministic_witness:
  "uniform counter_random 0 200 2 0 = ([0, 20], 2) \<and>
   uniform counter_random 0 200 2 10 = ([0, 20], 12) \<and>
   uniform counter_random 0.1 100 2 2 = ([502 / 25, 3007 / 100], 4) \<and>
   uniform counter_random 0.1 100 2 12 = ([502 / 25, 3007 / 100], 14) \<and>
   uniform counter_random (- pi) pi 2 4 = ([- (pi / 5), 0], 6) \<and>
   uniform counter_random (- pi) pi 2 14 = ([- (pi / 5), 0], 16) \<and>
   (\<exists>vec. get_data binary32 counter_random 2 0 200 0.1 100 True 0 =
            Some (vec, map (f32 binary32) [502 / 25, 3007 / 100], 6) \<and>
          get_data binary32 counter_random 2 0 200 0.1 100 True 10 =
            Some (vec, map (f32 binary32) [502 / 25, 3007 / 100], 16) \<and>
          length vec = 2 \<and> list_all (\<lambda>row. length row = 4) vec \<and>
          length (map (f32 binary32) [502 / 25, 3007 / 100]) = 2)"
proof -
  have a: "uniform counter_random 0 200 2 0 = ([0, 20], 2)"
    and b: "uniform counter_random 0 200 2 10 = ([0, 20], 12)"
    and c: "uniform counter_random 0.1 100 2 2 = ([502 / 25, 3007 / 100], 4)"
    and d: "uniform counter_random 0.1 100 2 12 = ([502 / 25, 3007 / 100], 14)"
    and e: "uniform counter_random (- pi) pi 2 4 = ([- (pi / 5), 0], 6)"
    and f: "uniform counter_random (- pi) pi 2 14 = ([- (pi / 5), 0], 16)"
    by (simp_all add: uniform_counter_two unit_draw_def)
  from get_data_deterministic [OF a b c d e f, where F = binary32 and cart = True]
    a b c d e f show ?thesis
    by (intro conjI) assumption+
qed

subsection \<open>The range of the masses\<close>




lemma get_batch_shape:
  "\<exists>vec m64 g' g1 g2. get_batch F R ds n g = Some (vec, map (f32 F) m64, g') \<and> length vec = n \<and>
     length m64 = n \<and> uniform R (min_m ds) (max_m ds) n g1 = (m64, g2)"
proof -
  obtain vec m g' where run:
    "get_data F R n (min_p ds) (max_p ds) (min_m ds) (max_m ds) (cartesian ds) g = Some (vec, m, g')"
    using get_data_returns [of F R n "min_p ds" "max_p ds" "min_m ds" "max_m ds" "cartesian ds" g]
    by auto
  from get_data_rows [OF run] obtain m64 g1 g2 where
    "uniform R (min_m ds) (max_m ds) n g1 = (m64, g2)" "length m64 = n" "length vec = n"
    "m = map (f32 F) m64"
    by auto
  with run show ?thesis
    unfolding get_batch_def by blast
qed

section \<open>Properties of the target rescaling\<close>

text \<open>
  Claim C4. For \<open>min_m < max_m\<close> and every real \<open>v\<close>, inside the mass range or not,
  scaling \<open>v\<close> and rescaling the result gives \<open>v\<close> back.
\<close>

theorem scale_target_round_trip:
  "min_m ds < max_m ds \<Longrightarrow> scale_target ds (scale_target ds v False) True = v"
  by (simp add: scale_target_def target_sigma_def)

theorem scale_target_round_trip_witness:
  "min_m data_spec < max_m data_spec \<and>
   scale_target data_spec (scale_target data_spec 250 False) True = 250"
  using scale_target_round_trip [of data_spec 250] by (simp add: data_spec_def)

section \<open>Properties of the training code\<close>

lemma keras_ok_toy: "keras_ok toy_keras"
  by (simp add: keras_ok_def toy_keras_def)

lemma length_column0: "keras_ok K \<Longrightarrow> length (column0 (model_call K w x t)) = length x"
  by (simp add: column0_def keras_ok_def)

lemma broadcast2_same: "length xs = length ys \<Longrightarrow> broadcast2 f xs ys = Inr (map2 f xs ys)"
  by (simp add: broadcast2_def)

lemma taped_loss_paired:
  assumes "keras_ok K" and "length truth = length x"
  shows "taped_loss K w x truth =
           Inr (reduce_mean (map2 (\<lambda>a b. (a - b)\<^sup>2) (column0 (model_call K w x True)) truth))"
  using assms by (simp add: taped_loss_def loss_func_def broadcast2_same length_column0)

lemma train_step_paired:
  assumes "keras_ok K" and "length truth = length x"
  shows "\<exists>loss optimizer1 w1. train_step K x truth optimizer w = Inr (loss, optimizer1, w1)"
  using assms by (simp add: train_step_def taped_loss_paired Let_def split: prod.splits)

lemma train_iterations_returns:
  assumes "keras_ok K"
  shows "\<exists>optimizer1 w1 g1. train_iterations F K R ds k optimizer w g = Some (Inr (optimizer1, w1, g1))"
proof (induction k arbitrary: optimizer w g)
  case 0
  then show ?case by simp
next
  case (Suc k)
  obtain vec m g' where batch: "get_batch F R ds 64 g = Some (vec, m, g')"
    and len: "length vec = 64" "length m = 64"
    using get_batch_shape [of F R ds 64 g] by (metis length_map)
  from len have "length (map (\<lambda>t. scale_target ds t False) m) = length vec"
    by simp
  from train_step_paired [OF assms this] obtain loss optimizer1 w1 where
    "train_step K vec (map (\<lambda>t. scale_target ds t False) m) optimizer w = Inr (loss, optimizer1, w1)"
    by blast
  with batch Suc.IH [of optimizer1 w1 g'] show ?case
    by simp
qed

lemma sum_list_map2_nth:
  fixes f :: "real \<Rightarrow> real \<Rightarrow> real"
  assumes "length xs = length ys"
  shows "sum_list (map2 f xs ys) = (\<Sum>i<length xs. f (xs ! i) (ys ! i))"
proof -
  have "sum_list (map2 f xs ys) = (\<Sum>i = 0..<length (map2 f xs ys). map2 f xs ys ! i)"
    by (rule sum_list_sum_nth)
  also have "\<dots> = (\<Sum>i = 0..<length xs. f (xs ! i) (ys ! i))"
    using assms by (intro sum.cong) simp_all
  finally show ?thesis
    by (simp add: atLeast0LessThan)
qed

text \<open>
  Claim C7. For a batch \<open>x\<close>, a target vector with one entry per row of \<open>x\<close> and any
  optimizer, \<open>train_step\<close> returns the mean over the batch of the squared difference
  between the model's output at the variables it was called with and the target (NaN for
  an empty batch), and updates the variables by one application of the optimizer to the
  gradients taken at those variables.
\<close>

theorem train_step_mse_one_update:
  assumes "keras_ok K" and "length truth = length x"
  shows "train_step K x truth optimizer w =
           Inr (if x = [] then None
                else Some ((\<Sum>i<length x. (model_call K w x True ! i ! 0 - truth ! i)\<^sup>2) /
                           real (length x)),
                apply_gradients K optimizer
                  (tape_gradient K
                     (\<lambda>v. case taped_loss K v x truth of Inl err \<Rightarrow> None | Inr l \<Rightarrow> l) w) w)"
proof -
  let ?pred = "column0 (model_call K w x True)"
  have len: "length ?pred = length truth"
    using assms by (simp add: length_column0)
  have lx: "length (model_call K w x True) = length x"
    using assms(1) by (simp add: keras_ok_def)
  have "sum_list (map2 (\<lambda>a b. (a - b)\<^sup>2) ?pred truth) =
          (\<Sum>i<length ?pred. (?pred ! i - truth ! i)\<^sup>2)"
    using len by (rule sum_list_map2_nth)
  also have "\<dots> = (\<Sum>i<length x. (model_call K w x True ! i ! 0 - truth ! i)\<^sup>2)"
    using lx by (intro sum.cong) (simp_all add: column0_def)
  finally have "reduce_mean (map2 (\<lambda>a b. (a - b)\<^sup>2) ?pred truth) =
      (if x = [] then None
       else Some ((\<Sum>i<length x. (model_call K w x True ! i ! 0 - truth ! i)\<^sup>2) / real (length x)))"
    using len assms(2) lx by (auto simp: reduce_mean_def column0_def)
  then show ?thesis
    using assms by (simp add: train_step_def taped_loss_paired Let_def split: prod.splits)
qed

theorem train_step_mse_one_update_witness:
  "keras_ok toy_keras \<and> length [3 :: real, 5] = length [[1, 1 :: real], [2, 2]] \<and>
   train_step toy_keras [[1, 1], [2, 2]] [3, 5] (1 / 10) 1 = Inr (Some 1, 1 / 10, 3 / 5)"
proof -
  have len: "length [3 :: real, 5] = length [[1, 1 :: real], [2, 2]]"
    by simp
  have sum2: "(\<Sum>i<2. f i) = f 0 + f (Suc 0)" for f :: "nat \<Rightarrow> real"
    by (simp add: numeral_2_eq_2)
  show ?thesis
    using train_step_mse_one_update [OF keras_ok_toy len, of "1 / 10" 1] keras_ok_toy
    by (simp add: sum2 toy_keras_def taped_loss_def loss_func_def broadcast2_def column0_def
        reduce_mean_def)
qed

lemma filter_id_map: "filter id (map P xs) = map P (filter P xs)"
  by (induction xs) auto

lemma np_mean_count:
  "xs \<noteq> [] \<Longrightarrow>
     np_mean (map P xs) = Some (real (card {i. i < length xs \<and> P (xs ! i)}) / real (length xs))"
  by (simp add: np_mean_def filter_id_map length_filter_conv_card)

lemma train_loop_unfold:
  assumes "keras_ok K"
    and "train_iterations F K R ds n_iterations (adam K learning_rate) w g = Some (Inr (optimizer1, w1, g1))"
    and "get_batch F R ds 20000 g1 = Some (vec, m, g2)"
    and "length vec = 20000" and "length m = 20000"
  shows "train_loop F K R ds n_iterations learning_rate w g =
           Some (Inr \<lparr> printed =
                         map_option (\<lambda>f. 100 * f)
                           (np_mean (map (\<lambda>r. abs_lt r 0.10)
                              (map2 (\<lambda>a b. np_div (a - b) b)
                                 (map (\<lambda>t. scale_target ds t True)
                                    (column0 (model_call K w1 vec False))) m))),
                       rel_errors =
                         map2 (\<lambda>a b. np_div (a - b) b)
                           (map (\<lambda>t. scale_target ds t True)
                              (column0 (model_call K w1 vec False))) m,
                       returned_pred =
                         map (\<lambda>t. scale_target ds t True) (column0 (model_call K w1 vec False)),
                       returned_truth = m, variables_after = w1, generator_after = g2 \<rparr>)"
proof -
  have "length (map (\<lambda>t. scale_target ds t True) (column0 (model_call K w1 vec False))) = length m"
    using assms(1,4,5) by (simp add: length_column0)
  then have "broadcast2 (\<lambda>a b. np_div (a - b) b)
               (map (\<lambda>t. scale_target ds t True) (column0 (model_call K w1 vec False))) m =
             Inr (map2 (\<lambda>a b. np_div (a - b) b)
               (map (\<lambda>t. scale_target ds t True) (column0 (model_call K w1 vec False))) m)"
    by (rule broadcast2_same)
  with assms(2,3) show ?thesis
    by (simp add: train_loop_def Let_def)
qed

text \<open>
  Claim C6. After the training iterations \<open>train_loop\<close> draws one batch of 20000
  samples, evaluates the model on it with \<^verbatim>\<open>training=False\<close> and the variables the
  iterations left, which it leaves as they are, rescales the outputs with
  \<open>scale_target\<close> in its \<^verbatim>\<open>rescale=True\<close> branch, and prints, as a percentage, the
  fraction of the samples whose relative error \<open>(pred - truth) / truth\<close> is below 0.10 in
  absolute value.
\<close>

theorem train_loop_evaluation:
  assumes "keras_ok K"
  shows "\<exists>optimizer1 w1 g1 vec m g2 res.
           train_iterations F K R ds n_iterations (adam K learning_rate) w g =
             Some (Inr (optimizer1, w1, g1)) \<and>
           get_batch F R ds 20000 g1 = Some (vec, m, g2) \<and>
           length vec = 20000 \<and> length m = 20000 \<and>
           train_loop F K R ds n_iterations learning_rate w g = Some (Inr res) \<and>
           variables_after res = w1 \<and> generator_after res = g2 \<and>
           returned_truth res = m \<and>
           returned_pred res =
             map (\<lambda>row. row ! 0 * target_sigma ds + target_mu ds) (model_call K w1 vec False) \<and>
           printed res =
             Some (100 * (real (card {i. i < 20000 \<and> m ! i \<noteq> 0 \<and>
                                      \<bar>(returned_pred res ! i - m ! i) / m ! i\<bar> < 0.10}) / 20000))"
proof -
  obtain optimizer1 w1 g1 where train:
    "train_iterations F K R ds n_iterations (adam K learning_rate) w g = Some (Inr (optimizer1, w1, g1))"
    using train_iterations_returns [OF assms, of F R ds n_iterations "adam K learning_rate" w g]
    by blast
  obtain vec m g2 where batch: "get_batch F R ds 20000 g1 = Some (vec, m, g2)"
    and len: "length vec = 20000" "length m = 20000"
    using get_batch_shape [of F R ds 20000 g1] by (metis length_map)
  let ?pred = "map (\<lambda>t. scale_target ds t True) (column0 (model_call K w1 vec False))"
  let ?rel = "map2 (\<lambda>a b. np_div (a - b) b) ?pred m"
  let ?res = "\<lparr> printed = map_option (\<lambda>f. 100 * f) (np_mean (map (\<lambda>r. abs_lt r 0.10) ?rel)),
               rel_errors = ?rel, returned_pred = ?pred, returned_truth = m,
               variables_after = w1, generator_after = g2 \<rparr>"
  have loop: "train_loop F K R ds n_iterations learning_rate w g = Some (Inr ?res)"
    using assms train batch len by (rule train_loop_unfold)
  have lp: "length ?pred = 20000"
    using assms len by (simp add: length_column0)
  have lrel: "length ?rel = 20000"
    using lp len by simp
  have pred: "?pred = map (\<lambda>row. row ! 0 * target_sigma ds + target_mu ds) (model_call K w1 vec False)"
    by (simp add: column0_def scale_target_def)
  have hit: "abs_lt (?rel ! i) 0.10 \<longleftrightarrow> m ! i \<noteq> 0 \<and> \<bar>(?pred ! i - m ! i) / m ! i\<bar> < 0.10"
    if "i < 20000" for i
    using that lp len by (simp add: np_div_def del: length_map)
  have "?rel \<noteq> []"
    using lrel by auto
  then have "np_mean (map (\<lambda>r. abs_lt r 0.10) ?rel) =
          Some (real (card {i. i < length ?rel \<and> abs_lt (?rel ! i) 0.10}) / real (length ?rel))"
    by (rule np_mean_count)
  also have "{i. i < length ?rel \<and> abs_lt (?rel ! i) 0.10} =
             {i. i < 20000 \<and> m ! i \<noteq> 0 \<and> \<bar>(?pred ! i - m ! i) / m ! i\<bar> < 0.10}"
    unfolding lrel using hit by blast
  finally have "printed ?res =
      Some (100 * (real (card {i. i < 20000 \<and> m ! i \<noteq> 0 \<and>
                                \<bar>(returned_pred ?res ! i - m ! i) / m ! i\<bar> < 0.10}) / 20000))"
    using lrel by simp
  with train batch len loop pred show ?thesis
    by (intro exI [of _ optimizer1] exI [of _ w1] exI [of _ g1] exI [of _ vec] exI [of _ m]
        exI [of _ g2] exI [of _ ?res]) simp
qed

theorem train_loop_evaluation_witness:
  "keras_ok toy_keras \<and>
   (\<exists>vec m g2 res.
      get_batch binary32 counter_random data_spec 20000 0 = Some (vec, m, g2) \<and>
      length vec = 20000 \<and> length m = 20000 \<and>
      train_loop binary32 toy_keras counter_random data_spec 0 0.003 1 0 = Some (Inr res) \<and>
      variables_after res = 1 \<and> generator_after res = g2 \<and> returned_truth res = m \<and>
      returned_pred res =
        map (\<lambda>row. row ! 0 * target_sigma data_spec + target_mu data_spec)
          (model_call toy_keras 1 vec False) \<and>
      printed res =
        Some (100 * (real (card {i. i < 20000 \<and> m ! i \<noteq> 0 \<and>
                                 \<bar>(returned_pred res ! i - m ! i) / m ! i\<bar> < 0.10}) / 20000)))"
proof -
  from train_loop_evaluation [OF keras_ok_toy, of binary32 counter_random data_spec 0 "0.003" 1 0]
  obtain optimizer1 w1 g1 vec m g2 res where
    train: "train_iterations binary32 toy_keras counter_random data_spec 0 (adam toy_keras 0.003) 1 0 =
              Some (Inr (optimizer1, w1, g1))" and
    rest: "get_batch binary32 counter_random data_spec 20000 g1 = Some (vec, m, g2)"
      "length vec = 20000" "length m = 20000"
      "train_loop binary32 toy_keras counter_random data_spec 0 0.003 1 0 = Some (Inr res)"
      "variables_after res = w1" "generator_after res = g2" "returned_truth res = m"
      "returned_pred res =
        map (\<lambda>row. row ! 0 * target_sigma data_spec + target_mu data_spec)
          (model_call toy_keras w1 vec False)"
      "printed res =
        Some (100 * (real (card {i. i < 20000 \<and> m ! i \<noteq> 0 \<and>
                                 \<bar>(returned_pred res ! i - m ! i) / m ! i\<bar> < 0.10}) / 20000))"
    by blast
  from train have w1: "w1 = 1" and g1: "g1 = 0"
    by simp_all
  show ?thesis
    using rest unfolding w1 g1
    by (intro conjI keras_ok_toy exI [of _ vec] exI [of _ m] exI [of _ g2] exI [of _ res])
qed










section \<open>Properties of the feature-scaling layer\<close>

lemma call_row_features:
  assumes "length row = length (means self)" and "length (stddevs self) = length (means self)"
  shows "call_row self row =
           Inr (map (\<lambda>j. np_div (row ! j - means self ! j) (stddevs self ! j))
                  [0..<length (means self)])"
proof -
  have rows: "map2 (\<lambda>a b. np_div a b) (map2 (\<lambda>a b. a - b) xs ms) ss =
        map (\<lambda>j. np_div (xs ! j - ms ! j) (ss ! j)) [0..<n]"
    if "length xs = n" and "length ms = n" and "length ss = n" for xs ms ss :: "real list" and n
    using that by (intro nth_equalityI) simp_all
  have "broadcast2 (\<lambda>a b. a - b) row (means self) = Inr (map2 (\<lambda>a b. a - b) row (means self))"
    using assms(1) by (rule broadcast2_same)
  moreover have "broadcast2 (\<lambda>a b. np_div a b) (map2 (\<lambda>a b. a - b) row (means self)) (stddevs self) =
      Inr (map2 (\<lambda>a b. np_div a b) (map2 (\<lambda>a b. a - b) row (means self)) (stddevs self))"
    using assms by (intro broadcast2_same) simp
  ultimately show ?thesis
    using rows [OF assms(1) refl assms(2)] by (simp add: call_row_def)
qed

lemma call_rows_features:
  assumes "list_all (\<lambda>row. length row = length (means self)) x"
    and "length (stddevs self) = length (means self)"
  shows "call_rows self x =
           Inr (map (\<lambda>row. map (\<lambda>j. np_div (row ! j - means self ! j) (stddevs self ! j))
                               [0..<length (means self)]) x)"
  using assms by (induction x) (simp_all add: call_row_features)

text \<open>
  Claim C10. For a batch whose rows have one entry per stored mean, \<open>call\<close> returns
  \<open>(x - means) / stddevs\<close> entry by entry and leaves the layer as it was; \<open>build\<close>
  creates no variable, the layer is not trainable, and it stores the means and standard
  deviations it was constructed with.
\<close>

theorem FeatureScaling_call_affine:
  assumes "list_all (\<lambda>row. length row = length (means self)) x"
    and "length (stddevs self) = length (means self)"
  shows "call self x =
           (Inr (map (\<lambda>row. map (\<lambda>j. np_div (row ! j - means self ! j) (stddevs self ! j))
                                [0..<length (means self)]) x), self) \<and>
         build self input_shape = self \<and>
         weights (build (FeatureScaling_init mu sd) input_shape) = [] \<and>
         \<not> trainable (FeatureScaling_init mu sd) \<and>
         means (FeatureScaling_init mu sd) = mu \<and> stddevs (FeatureScaling_init mu sd) = sd"
  using assms by (simp add: call_def call_rows_features build_def FeatureScaling_init_def)

theorem FeatureScaling_call_affine_witness:
  "list_all (\<lambda>row. length row = length (means (FeatureScaling_init [3, 5] [1, 2])))
     [[4, 9], [3, 5 :: real]] \<and>
   length (stddevs (FeatureScaling_init [3, 5] [1, 2])) =
     length (means (FeatureScaling_init [3, 5] [1, 2])) \<and>
   call (FeatureScaling_init [3, 5] [1, 2]) [[4, 9], [3, 5]] =
     (Inr [[Some 1, Some 2], [Some 0, Some 0]], FeatureScaling_init [3, 5] [1, 2]) \<and>
   weights (build (FeatureScaling_init [3, 5] [1, 2]) (2, 2)) = []"
proof -
  have a: "list_all (\<lambda>row. length row = length (means (FeatureScaling_init [3, 5] [1, 2])))
     [[4, 9], [3, 5 :: real]]"
    and b: "length (stddevs (FeatureScaling_init [3, 5] [1, 2])) =
     length (means (FeatureScaling_init [3, 5] [1, 2]))"
    by (simp_all add: FeatureScaling_init_def)
  have upt: "[0..<length (means (FeatureScaling_init [3, 5] [1, 2]))] = [0, Suc 0]"
    by (simp add: FeatureScaling_init_def)
  from FeatureScaling_call_affine [OF a b, of "(2, 2)" "[3, 5]" "[1, 2]"] a b show ?thesis
    unfolding upt by (simp add: np_div_def FeatureScaling_init_def)
qed

end
